theory Spec2Isabelle
  imports Complex_Main "HOL-Library.Word" "HOL-Library.Multiset" "HOL-Library.Log_Nat"
    "HOL-Library.Code_Target_Nat"
begin

section \<open>JavaScript strings\<close>

text \<open>
  A JavaScript string is a sequence of UTF-16 code units. The task text typed by the
  user, the priority names and the persisted JSON text are all such strings.
\<close>

type_synonym jschar = "16 word"
type_synonym jsstring = "jschar list"

text \<open>An ASCII literal as a JavaScript string (used to write concrete inputs).\<close>

definition ascii :: "string \<Rightarrow> jsstring" where
  "ascii s = map (\<lambda>c. of_nat (of_char c)) s"

text \<open>
  \<^verbatim>\<open>String.prototype.trim\<close> removes leading and trailing WhiteSpace and LineTerminator
  code points: TAB, LF, VT, FF, CR, SP, NBSP, U+1680, U+2000..U+200A, U+2028, U+2029,
  U+202F, U+205F, U+3000 and U+FEFF. All of them are single code units.
\<close>

definition is_trim_space :: "jschar \<Rightarrow> bool" where
  "is_trim_space c \<longleftrightarrow>
     c = 0x09 \<or> c = 0x0A \<or> c = 0x0B \<or> c = 0x0C \<or> c = 0x0D \<or> c = 0x20 \<or> c = 0xA0 \<or>
     c = 0x1680 \<or> (0x2000 \<le> c \<and> c \<le> 0x200A) \<or> c = 0x2028 \<or> c = 0x2029 \<or>
     c = 0x202F \<or> c = 0x205F \<or> c = 0x3000 \<or> c = 0xFEFF"

definition trim :: "jsstring \<Rightarrow> jsstring" where
  "trim s = rev (dropWhile is_trim_space (rev (dropWhile is_trim_space s)))"

section \<open>Outcomes of statements\<close>

text \<open>
  No function of the application catches an exception. A call either completes or
  throws; what it did to the state before throwing stays done. A procedure therefore
  returns its outcome together with the state it leaves behind.
\<close>

datatype error = SyntaxError | TypeError | DOMException

datatype outcome = Ok | Threw error

type_synonym 's proc = "'s \<Rightarrow> outcome \<times> 's"

text \<open>\<open>seq f g\<close> is \<^verbatim>\<open>f(); g();\<close>: the second statement runs only if the first completed.\<close>

definition seq :: "'s proc \<Rightarrow> 's proc \<Rightarrow> 's proc" where
  "seq f g s = (case f s of (Ok, s') \<Rightarrow> g s' | (Threw e, s') \<Rightarrow> (Threw e, s'))"

definition done_with :: "('s \<Rightarrow> 's) \<Rightarrow> 's proc" where
  "done_with f s = (Ok, f s)"

section \<open>SoundEngine.js\<close>

datatype wave = Sine | Square | Sawtooth | Triangle

text \<open>
  The calls the engine makes on the Web Audio API, in the order it makes them. Times are
  offsets from \<^verbatim>\<open>audioCtx.currentTime\<close> at the moment of the call.
\<close>

datatype backend_call =
    NewAudioContext
  | CreateOscillator
  | CreateGain
  | SetType wave
  | FrequencySetValueAtTime rat
  | FrequencyExponentialRamp rat rat
  | GainSetValueAtTime rat
  | GainLinearRamp rat rat
  | GainExponentialRamp rat rat
  | ConnectOscToGain
  | ConnectGainToDestination
  | OscStart
  | OscStop rat

text \<open>The two kinds of callback the engine hands to \<^verbatim>\<open>setTimeout\<close>.\<close>

datatype deferred =
    Tone rat wave rat rat
  | VictoryVoice rat

text \<open>
  The singleton engine together with the part of the browser it talks to.
  \<open>audioCtx\<close> is whether \<^verbatim>\<open>this.audioCtx\<close> holds a context (it starts as null),
  \<open>enabled\<close> is \<^verbatim>\<open>this.enabled\<close>. \<open>ctor_ok\<close> says whether
  \<^verbatim>\<open>new (window.AudioContext || window.webkitAudioContext)()\<close> yields a context (it throws
  otherwise, for instance a TypeError where neither constructor exists), \<open>node_ok\<close>
  whether the context hands out nodes (\<^verbatim>\<open>createOscillator()\<close> throws otherwise).
  \<open>backend\<close> is the log of Web Audio calls made so far and \<open>timers\<close> the callbacks
  registered with \<^verbatim>\<open>setTimeout\<close> that have not fired yet, with their delays in ms.
\<close>

record audio =
  audioCtx :: bool
  enabled :: bool
  ctor_ok :: bool
  node_ok :: bool
  backend :: "backend_call list"
  timers :: "(nat \<times> deferred) list"

text \<open>The constructor: no context, sound enabled.\<close>

definition new_SoundEngine :: "bool \<Rightarrow> bool \<Rightarrow> audio" where
  "new_SoundEngine ctor node =
     \<lparr>audioCtx = False, enabled = True, ctor_ok = ctor, node_ok = node, backend = [], timers = []\<rparr>"

definition init :: "audio proc" where
  "init a =
     (if \<not> audioCtx a then
        (if ctor_ok a then (Ok, a\<lparr>audioCtx := True, backend := backend a @ [NewAudioContext]\<rparr>)
         else (Threw TypeError, a))
      else (Ok, a))"

definition setEnabled :: "bool \<Rightarrow> audio \<Rightarrow> audio" where
  "setEnabled val a = a\<lparr>enabled := val\<rparr>"

definition tone_calls :: "rat \<Rightarrow> wave \<Rightarrow> rat \<Rightarrow> rat \<Rightarrow> backend_call list" where
  "tone_calls freq type duration volume =
     [CreateOscillator, CreateGain, SetType type, FrequencySetValueAtTime freq,
      GainSetValueAtTime volume, GainExponentialRamp 0.0001 duration,
      ConnectOscToGain, ConnectGainToDestination, OscStart, OscStop duration]"

definition createOscillator :: "rat \<Rightarrow> wave \<Rightarrow> rat \<Rightarrow> rat \<Rightarrow> audio proc" where
  "createOscillator freq type duration volume a =
     (if \<not> audioCtx a \<or> \<not> enabled a then (Ok, a)
      else if \<not> node_ok a then (Threw DOMException, a)
      else (Ok, a\<lparr>backend := backend a @ tone_calls freq type duration volume\<rparr>))"

definition setTimeout :: "deferred \<Rightarrow> nat \<Rightarrow> audio proc" where
  "setTimeout cb delay a = (Ok, a\<lparr>timers := timers a @ [(delay, cb)]\<rparr>)"

definition playClick :: "audio proc" where
  "playClick = seq init (createOscillator 800 Square 0.05 0.02)"

definition playAdd :: "audio proc" where
  "playAdd =
     seq init (seq (createOscillator 400 Sine 0.1 0.05) (setTimeout (Tone 600 Sine 0.15 0.05) 50))"

definition playToggle :: "bool \<Rightarrow> audio proc" where
  "playToggle completed =
     seq init
       (if completed then
          seq (createOscillator 1200 Sine 0.1 0.03) (setTimeout (Tone 1500 Sine 0.2 0.02) 40)
        else createOscillator 600 Sine 0.1 0.03)"

definition playDelete :: "audio proc" where
  "playDelete = seq init (createOscillator 300 Sawtooth 0.1 0.02)"

text \<open>
  \<^verbatim>\<open>playVictory\<close> does not go through \<^verbatim>\<open>createOscillator\<close>: it checks only that the
  context exists and registers one callback per harmonic, the i-th after i * 150 ms.
\<close>

definition harmonics :: "rat list" where
  "harmonics = [1, 1.5, 2, 2.5, 3]"

fun schedule_voices :: "nat \<Rightarrow> rat list \<Rightarrow> audio \<Rightarrow> audio" where
  "schedule_voices i [] a = a"
| "schedule_voices i (harmonic # hs) a =
     schedule_voices (Suc i) hs (a\<lparr>timers := timers a @ [(i * 150, VictoryVoice harmonic)]\<rparr>)"

definition playVictory :: "audio proc" where
  "playVictory =
     seq init (\<lambda>a. if \<not> audioCtx a then (Ok, a) else (Ok, schedule_voices 0 harmonics a))"

definition playCredits :: "audio proc" where
  "playCredits =
     seq init (\<lambda>a. if \<not> audioCtx a then (Ok, a)
       else seq (createOscillator 660 Sine 1.2 0.02) (setTimeout (Tone 440 Sine 1.5 0.02) 100) a)"

text \<open>
  The body of the callback of \<^verbatim>\<open>playVictory\<close> for one harmonic (base frequency 220 Hz,
  duration 2.5 s).
\<close>

definition voice_calls :: "rat \<Rightarrow> backend_call list" where
  "voice_calls harmonic =
     [CreateOscillator, CreateGain, SetType Sine,
      FrequencySetValueAtTime (220 * harmonic),
      FrequencyExponentialRamp (220 * harmonic * 1.5) 2.5,
      GainSetValueAtTime 0, GainLinearRamp 0.05 0.5, GainExponentialRamp 0.0001 2.5,
      ConnectOscToGain, ConnectGainToDestination, OscStart, OscStop 2.5]"

text \<open>
  A timer callback runs from the event loop: an exception it throws reaches no caller,
  so only the state it leaves matters.
\<close>

fun fire :: "deferred \<Rightarrow> audio \<Rightarrow> audio" where
  "fire (Tone freq type duration volume) a = snd (createOscillator freq type duration volume a)"
| "fire (VictoryVoice harmonic) a =
     (if audioCtx a \<and> node_ok a then a\<lparr>backend := backend a @ voice_calls harmonic\<rparr> else a)"

text \<open>All pending callbacks fire, the shortest delay first, in registration order among equals.\<close>

definition run_timers :: "audio \<Rightarrow> audio" where
  "run_timers a = fold fire (map snd (sort_key fst (timers a))) (a\<lparr>timers := []\<rparr>)"

section \<open>TodoApp.jsx\<close>

text \<open>
  A task, as \<^verbatim>\<open>addTodo\<close> builds it: \<^verbatim>\<open>{ id, text, completed, priority }\<close>. The id is a
  value of \<^verbatim>\<open>Date.now()\<close>, an integral number of milliseconds that a Number holds exactly.
\<close>

record todo =
  todo_id :: int
  todo_text :: jsstring
  todo_completed :: bool
  todo_priority :: jsstring

text \<open>
  The state of the component that the task operations read and write, the value stored
  under the key \<^verbatim>\<open>react-todo-list\<close> of localStorage (\<open>None\<close> when the key is absent), and
  the sound engine.
\<close>

record app =
  todos :: "todo list"
  inputValue :: jsstring
  priority :: jsstring
  storage :: "jsstring option"
  sound :: audio

text \<open>A call of a method of the sound engine from the component.\<close>

definition soundEngine :: "audio proc \<Rightarrow> app proc" where
  "soundEngine m w = (case m (sound w) of (r, a) \<Rightarrow> (r, w\<lparr>sound := a\<rparr>))"

text \<open>\<^verbatim>\<open>addTodo\<close>; \<open>now\<close> is the value \<^verbatim>\<open>Date.now()\<close> returns during the call.\<close>

definition addTodo :: "int \<Rightarrow> app proc" where
  "addTodo now w =
     (if trim (inputValue w) = [] then (Ok, w)
      else
        let newTodo = \<lparr>todo_id = now, todo_text = inputValue w, todo_completed = False,
                        todo_priority = priority w\<rparr>
        in seq (done_with (\<lambda>w. w\<lparr>todos := newTodo # todos w\<rparr>))
            (seq (done_with (\<lambda>w. w\<lparr>inputValue := []\<rparr>))
              (soundEngine playAdd)) w)"

definition toggleTodo :: "int \<Rightarrow> app proc" where
  "toggleTodo i w =
     (let todoToToggle = find (\<lambda>t. todo_id t = i) (todos w)
      in seq
           (case todoToToggle of
              Some t \<Rightarrow> soundEngine (playToggle (\<not> todo_completed t))
            | None \<Rightarrow> done_with (\<lambda>w. w))
           (done_with (\<lambda>w'. w'\<lparr>todos :=
              map (\<lambda>t. if todo_id t = i then t\<lparr>todo_completed := \<not> todo_completed t\<rparr> else t)
                (todos w)\<rparr>)) w)"

definition deleteTodo :: "int \<Rightarrow> app proc" where
  "deleteTodo i w =
     seq (soundEngine playDelete)
       (done_with (\<lambda>w'. w'\<lparr>todos := filter (\<lambda>t. todo_id t \<noteq> i) (todos w)\<rparr>)) w"

text \<open>\<^verbatim>\<open>onReorder={setTodos}\<close>: the list is replaced by the order the drag engine reports.\<close>

definition reorder :: "todo list \<Rightarrow> app proc" where
  "reorder newOrder = done_with (\<lambda>w. w\<lparr>todos := newOrder\<rparr>)"

text \<open>The input field's \<^verbatim>\<open>onChange\<close> handler and the state a priority choice leaves.\<close>

definition setInputValue :: "jsstring \<Rightarrow> app \<Rightarrow> app" where
  "setInputValue v w = w\<lparr>inputValue := v\<rparr>"

definition setPriority :: "jsstring \<Rightarrow> app \<Rightarrow> app" where
  "setPriority p w = w\<lparr>priority := p\<rparr>"

text \<open>The component as first rendered over an empty store: no tasks, priority Medium.\<close>

definition initial_app :: "audio \<Rightarrow> app" where
  "initial_app a =
     \<lparr>todos = [], inputValue = [], priority = ascii ''Medium'', storage = None, sound = a\<rparr>"

text \<open>
  The trigger methods that sound through \<^verbatim>\<open>createOscillator\<close> (all but
  \<^verbatim>\<open>playVictory\<close>).
\<close>

definition tone_triggers :: "audio proc list" where
  "tone_triggers = [playClick, playAdd, playToggle True, playToggle False, playDelete, playCredits]"

section \<open>Sequences of user actions\<close>

text \<open>
  What a user can do to the task list: type a text, choose a priority and press add (at
  clock reading \<open>now\<close>), click a task's text, click its delete button, or drop a dragged
  task, upon which the drag engine reports the new order.
\<close>

datatype action =
    Add jsstring jsstring int
  | Toggle int
  | Delete int
  | Reorder "todo list"

fun handle :: "action \<Rightarrow> app proc" where
  "handle (Add txt p now) w = addTodo now (setPriority p (setInputValue txt w))"
| "handle (Toggle i) w = toggleTodo i w"
| "handle (Delete i) w = deleteTodo i w"
| "handle (Reorder newOrder) w = reorder newOrder w"

text \<open>
  An exception thrown by an event handler is reported by the browser and the page keeps
  running, so the next action meets the state the handler left.
\<close>

fun run :: "action list \<Rightarrow> app \<Rightarrow> app" where
  "run [] w = w"
| "run (act # acts) w = run acts (snd (handle act w))"

text \<open>
  A run is \<open>admissible\<close> when every add that creates a task happens at a clock reading
  that is not the id of a task already listed, and every reorder reports a permutation
  of the current list.
\<close>

fun admissible :: "action list \<Rightarrow> app \<Rightarrow> bool" where
  "admissible [] w = True"
| "admissible (Add txt p now # acts) w =
     ((trim txt = [] \<or> now \<notin> set (map todo_id (todos w))) \<and>
      admissible acts (snd (handle (Add txt p now) w)))"
| "admissible (Reorder newOrder # acts) w =
     (mset newOrder = mset (todos w) \<and> admissible acts (snd (handle (Reorder newOrder) w)))"
| "admissible (act # acts) w = admissible acts (snd (handle act w))"

section \<open>Derived statistics\<close>

text \<open>
  JavaScript numbers are IEEE 754 doubles. \<open>to_double\<close> rounds a rational to the nearest
  number with a 53-bit significand, ties to the even significand, which is what every
  arithmetic operation on doubles does to its exact result. The exponent is left
  unbounded: neither overflow nor subnormal numbers arise for quotients of list lengths.
  \<open>binade x\<close> is the exponent of the largest power of two not above a positive \<open>x\<close>.
\<close>

definition pow2 :: "int \<Rightarrow> rat" where
  "pow2 e = (if 0 \<le> e then 2 ^ nat e else 1 / 2 ^ nat (- e))"

definition round_half_even :: "rat \<Rightarrow> int" where
  "round_half_even x =
     (let f = \<lfloor>x\<rfloor>; d = x - of_int f
      in if d < 1 / 2 then f else if 1 / 2 < d then f + 1 else if even f then f else f + 1)"

definition binade :: "rat \<Rightarrow> int" where
  "binade x =
     (let (p, q) = quotient_of x; d = bitlen p - bitlen q
      in if pow2 d \<le> x then d else d - 1)"

definition to_double :: "rat \<Rightarrow> rat" where
  "to_double x =
     (if x = 0 then 0
      else let ulp = pow2 (binade \<bar>x\<bar> - 52)
           in sgn x * of_int (round_half_even (\<bar>x\<bar> / ulp)) * ulp)"

definition js_div :: "rat \<Rightarrow> rat \<Rightarrow> rat" where
  "js_div x y = to_double (x / y)"

definition js_mul :: "rat \<Rightarrow> rat \<Rightarrow> rat" where
  "js_mul x y = to_double (x * y)"





section \<open>JSON.stringify and JSON.parse\<close>

text \<open>
  The application persists its task list with \<^verbatim>\<open>JSON.stringify\<close> and reads it back with
  \<^verbatim>\<open>JSON.parse\<close>. Both are built-ins of the JavaScript runtime; they are written out here
  as ECMA-262 defines them, the serialiser for the values the application hands to it
  (lists of tasks), the parser for every text.
\<close>

text \<open>
  The value \<^verbatim>\<open>JSON.parse\<close> returns. An object lists its members in property order. A
  number literal denotes the double nearest to its decimal value; the model keeps the
  decimal value itself, which is the same thing for the integers of magnitude up to
  \<open>2^53\<close> that ids are (the sign of a zero is not kept).
\<close>

datatype json =
    JNull
  | JBool bool
  | JNumber rat
  | JString jsstring
  | JArray "json list"
  | JObject "(jsstring \<times> json) list"

subsection \<open>Serialising the task list\<close>

text \<open>
  \<^verbatim>\<open>Number::toString\<close> of an integral number below \<open>10^21\<close> in magnitude: its decimal
  digits, after a minus sign when it is negative.
\<close>

definition decimal_digit :: "nat \<Rightarrow> jschar" where
  "decimal_digit d = of_nat (48 + d)"

fun digits_of :: "nat \<Rightarrow> jsstring" where
  "digits_of n =
     (if n < 10 then [decimal_digit n] else digits_of (n div 10) @ [decimal_digit (n mod 10)])"

definition Number_toString :: "int \<Rightarrow> jsstring" where
  "Number_toString n = (if n < 0 then 0x2D # digits_of (nat (- n)) else digits_of (nat n))"

text \<open>
  \<^verbatim>\<open>QuoteJSONString\<close>: backspace, tab, line feed, form feed, carriage return, the double
  quote and the backslash get their two-character escapes; other code units below
  U+0020 and surrogates that are not part of a pair become \<^verbatim>\<open>\uXXXX\<close> with lower-case
  hexadecimal digits; everything else stands for itself.
\<close>

definition hex_digit :: "nat \<Rightarrow> jschar" where
  "hex_digit d = (if d < 10 then of_nat (48 + d) else of_nat (87 + d))"

definition unicode_escape :: "jschar \<Rightarrow> jsstring" where
  "unicode_escape c =
     (let n = unat c
      in [0x5C, 0x75, hex_digit (n div 4096), hex_digit (n div 256 mod 16),
          hex_digit (n div 16 mod 16), hex_digit (n mod 16)])"

definition is_high_surrogate :: "jschar \<Rightarrow> bool" where
  "is_high_surrogate c \<longleftrightarrow> 0xD800 \<le> c \<and> c \<le> 0xDBFF"

definition is_low_surrogate :: "jschar \<Rightarrow> bool" where
  "is_low_surrogate c \<longleftrightarrow> 0xDC00 \<le> c \<and> c \<le> 0xDFFF"

fun quote_chars :: "jsstring \<Rightarrow> jsstring" where
  "quote_chars [] = []"
| "quote_chars (c # cs) =
     (if c = 0x08 then [0x5C, 0x62] @ quote_chars cs
      else if c = 0x09 then [0x5C, 0x74] @ quote_chars cs
      else if c = 0x0A then [0x5C, 0x6E] @ quote_chars cs
      else if c = 0x0C then [0x5C, 0x66] @ quote_chars cs
      else if c = 0x0D then [0x5C, 0x72] @ quote_chars cs
      else if c = 0x22 then [0x5C, 0x22] @ quote_chars cs
      else if c = 0x5C then [0x5C, 0x5C] @ quote_chars cs
      else if c < 0x20 then unicode_escape c @ quote_chars cs
      else if is_high_surrogate c then
        (case cs of
           [] \<Rightarrow> unicode_escape c
         | d # ds \<Rightarrow>
             if is_low_surrogate d then c # d # quote_chars ds
             else unicode_escape c @ quote_chars cs)
      else if is_low_surrogate c then unicode_escape c @ quote_chars cs
      else c # quote_chars cs)"

definition QuoteJSONString :: "jsstring \<Rightarrow> jsstring" where
  "QuoteJSONString s = 0x22 # quote_chars s @ [0x22]"

text \<open>
  \<^verbatim>\<open>JSON.stringify(todos)\<close>: the tasks in list order, separated by commas, between
  brackets; each task as its four properties in the order \<^verbatim>\<open>addTodo\<close> wrote them (the
  copy made by \<^verbatim>\<open>toggleTodo\<close> keeps that order), without any white space.
\<close>

definition stringify_todo :: "todo \<Rightarrow> jsstring" where
  "stringify_todo t =
     [0x7B] @ QuoteJSONString (ascii ''id'') @ [0x3A] @ Number_toString (todo_id t) @
     [0x2C] @ QuoteJSONString (ascii ''text'') @ [0x3A] @ QuoteJSONString (todo_text t) @
     [0x2C] @ QuoteJSONString (ascii ''completed'') @ [0x3A] @
       (if todo_completed t then ascii ''true'' else ascii ''false'') @
     [0x2C] @ QuoteJSONString (ascii ''priority'') @ [0x3A] @ QuoteJSONString (todo_priority t) @
     [0x7D]"

fun join_comma :: "jsstring list \<Rightarrow> jsstring" where
  "join_comma [] = []"
| "join_comma [x] = x"
| "join_comma (x # y # ys) = x @ 0x2C # join_comma (y # ys)"

definition JSON_stringify_todos :: "todo list \<Rightarrow> jsstring" where
  "JSON_stringify_todos ts = 0x5B # join_comma (map stringify_todo ts) @ [0x5D]"

subsection \<open>Tokens\<close>

datatype token =
    LBrace | RBrace | LBracket | RBracket | Colon | Comma
  | TString jsstring
  | TNumber rat
  | TTrue | TFalse | TNull

definition is_json_ws :: "jschar \<Rightarrow> bool" where
  "is_json_ws c \<longleftrightarrow> c = 0x20 \<or> c = 0x09 \<or> c = 0x0A \<or> c = 0x0D"

definition is_digit :: "jschar \<Rightarrow> bool" where
  "is_digit c \<longleftrightarrow> 0x30 \<le> c \<and> c \<le> 0x39"

definition digit_value :: "jschar \<Rightarrow> nat" where
  "digit_value c = unat c - 48"

definition decimal_value :: "jsstring \<Rightarrow> nat" where
  "decimal_value ds = foldl (\<lambda>n c. 10 * n + digit_value c) 0 ds"

definition hex_value :: "jschar \<Rightarrow> nat option" where
  "hex_value c =
     (let v = unat c
      in if 48 \<le> v \<and> v \<le> 57 then Some (v - 48)
         else if 97 \<le> v \<and> v \<le> 102 then Some (v - 87)
         else if 65 \<le> v \<and> v \<le> 70 then Some (v - 55)
         else None)"

text \<open>The code unit a single-character escape stands for.\<close>

definition unescape :: "jschar \<Rightarrow> jschar option" where
  "unescape e =
     (if e = 0x22 then Some 0x22
      else if e = 0x5C then Some 0x5C
      else if e = 0x2F then Some 0x2F
      else if e = 0x62 then Some 0x08
      else if e = 0x66 then Some 0x0C
      else if e = 0x6E then Some 0x0A
      else if e = 0x72 then Some 0x0D
      else if e = 0x74 then Some 0x09
      else None)"

definition hex4 :: "jschar \<Rightarrow> jschar \<Rightarrow> jschar \<Rightarrow> jschar \<Rightarrow> jschar option" where
  "hex4 h1 h2 h3 h4 =
     (case (hex_value h1, hex_value h2, hex_value h3, hex_value h4) of
        (Some n1, Some n2, Some n3, Some n4) \<Rightarrow> Some (of_nat (4096 * n1 + 256 * n2 + 16 * n3 + n4))
      | _ \<Rightarrow> None)"

text \<open>
  The rest of a string literal after its opening quote: the string it denotes and the
  input after the closing quote. A code unit below U+0020 may not stand unescaped.
\<close>

fun lex_string :: "jsstring \<Rightarrow> (jsstring \<times> jsstring) option" where
  "lex_string [] = None"
| "lex_string (c # cs) =
     (if c = 0x22 then Some ([], cs)
      else if c = 0x5C then
        (case cs of
           [] \<Rightarrow> None
         | e # r \<Rightarrow>
             if e = 0x75 then
               (case r of
                  h1 # h2 # h3 # h4 # r' \<Rightarrow>
                    (case hex4 h1 h2 h3 h4 of
                       None \<Rightarrow> None
                     | Some u \<Rightarrow> map_option (\<lambda>(s, rest). (u # s, rest)) (lex_string r'))
                | _ \<Rightarrow> None)
             else
               (case unescape e of
                  None \<Rightarrow> None
                | Some u \<Rightarrow> map_option (\<lambda>(s, rest). (u # s, rest)) (lex_string r)))
      else if c < 0x20 then None
      else map_option (\<lambda>(s, rest). (c # s, rest)) (lex_string cs))"

text \<open>
  A number literal: an optional minus sign, an integer part without a superfluous
  leading zero, an optional fraction and an optional exponent.
\<close>

definition pow10 :: "int \<Rightarrow> rat" where
  "pow10 e = (if 0 \<le> e then 10 ^ nat e else 1 / 10 ^ nat (- e))"

definition lex_fraction :: "jsstring \<Rightarrow> (rat \<times> jsstring) option" where
  "lex_fraction s =
     (case s of
        [] \<Rightarrow> Some (0, s)
      | c # r \<Rightarrow>
          if c = 0x2E then
            (let ds = takeWhile is_digit r
             in if ds = [] then None
                else Some (of_nat (decimal_value ds) / 10 ^ length ds, dropWhile is_digit r))
          else Some (0, s))"

definition lex_sign :: "jsstring \<Rightarrow> bool \<times> jsstring" where
  "lex_sign s =
     (case s of
        [] \<Rightarrow> (False, s)
      | c # r \<Rightarrow> if c = 0x2D then (True, r) else if c = 0x2B then (False, r) else (False, s))"

definition lex_exponent :: "jsstring \<Rightarrow> (int \<times> jsstring) option" where
  "lex_exponent s =
     (case s of
        [] \<Rightarrow> Some (0, s)
      | c # r \<Rightarrow>
          if c = 0x65 \<or> c = 0x45 then
            (let (neg, r1) = lex_sign r; ds = takeWhile is_digit r1
             in if ds = [] then None
                else Some (if neg then - int (decimal_value ds) else int (decimal_value ds),
                           dropWhile is_digit r1))
          else Some (0, s))"

definition lex_number :: "jsstring \<Rightarrow> (rat \<times> jsstring) option" where
  "lex_number s =
     (let (neg, s1) = (case s of [] \<Rightarrow> (False, s) | c # r \<Rightarrow> if c = 0x2D then (True, r) else (False, s));
          ds = takeWhile is_digit s1
      in if ds = [] \<or> (hd ds = 0x30 \<and> 1 < length ds) then None
         else
           (case lex_fraction (dropWhile is_digit s1) of
              None \<Rightarrow> None
            | Some (f, s2) \<Rightarrow>
                (case lex_exponent s2 of
                   None \<Rightarrow> None
                 | Some (e, s3) \<Rightarrow>
                     Some ((if neg then - 1 else 1) * (of_nat (decimal_value ds) + f) * pow10 e, s3))))"

definition drop_prefix :: "jsstring \<Rightarrow> jsstring \<Rightarrow> jsstring option" where
  "drop_prefix p s = (if take (length p) s = p then Some (drop (length p) s) else None)"

text \<open>Every token consumes input, which is why the tokeniser terminates.\<close>


lemma lex_string_shorter: "lex_string cs = Some (s, rest) \<Longrightarrow> length rest < Suc (length cs)"
proof (induction "length cs" arbitrary: cs s rest rule: less_induct)
  case less
  from less.prems obtain c cs' where cs: "cs = c # cs'"
    by (cases cs) auto
  have IH: "length rest < Suc (length r)"
    if "length r < length cs" and "lex_string r = Some (s', rest)" for r s'
    using less.hyps [OF that] .
  consider (quote) "c = 0x22" | (esc) "c = 0x5C" | (plain) "c \<noteq> 0x22" "c \<noteq> 0x5C"
    by blast
  then show ?case
  proof cases
    case quote
    with less.prems cs show ?thesis by simp
  next
    case esc
    with less.prems cs obtain e r where cs': "cs' = e # r"
      by (cases cs') auto
    show ?thesis
    proof (cases "e = 0x75")
      case True
      with less.prems cs esc cs' obtain h1 h2 h3 h4 r' s' where
        r: "r = h1 # h2 # h3 # h4 # r'" and "lex_string r' = Some (s', rest)"
        by (auto split: list.splits option.splits)
      with IH [of r' s'] cs cs' show ?thesis by simp
    next
      case False
      with less.prems cs esc cs' obtain s' where "lex_string r = Some (s', rest)"
        by (auto split: option.splits)
      with IH [of r s'] cs cs' show ?thesis by simp
    qed
  next
    case plain
    with less.prems cs obtain s' where "lex_string cs' = Some (s', rest)"
      by (auto split: if_splits)
    with IH [of cs' s'] cs show ?thesis by simp
  qed
qed


lemma lex_number_shorter: "lex_number s = Some (v, rest) \<Longrightarrow> length rest < length s"
proof -
  have dw: "length (dropWhile is_digit xs) \<le> length xs" for xs
    by (rule length_dropWhile_le)
  have tk: "takeWhile is_digit xs \<noteq> [] \<Longrightarrow> length (dropWhile is_digit xs) < length xs" for xs
    by (cases xs) (auto simp: le_imp_less_Suc [OF length_dropWhile_le] split: if_splits)
  have sg: "length (snd (lex_sign xs)) \<le> length xs" for xs
    by (simp add: lex_sign_def split: list.splits)
  have fr: "lex_fraction xs = Some (f, ys) \<Longrightarrow> length ys \<le> length xs" for xs f ys
    using dw by (auto simp: lex_fraction_def Let_def le_SucI split: list.splits if_splits)
  have ex: "lex_exponent xs = Some (e, ys) \<Longrightarrow> length ys \<le> length xs" for xs e ys
  proof (cases xs)
    case Nil
    assume "lex_exponent xs = Some (e, ys)"
    with Nil show ?thesis by (simp add: lex_exponent_def)
  next
    case (Cons c r)
    assume "lex_exponent xs = Some (e, ys)"
    with Cons have "ys = xs \<or> ys = dropWhile is_digit (snd (lex_sign r))"
      by (auto simp: lex_exponent_def Let_def split: if_splits prod.splits)
    with Cons dw [of "snd (lex_sign r)"] sg [of r] show ?thesis
      by auto
  qed
  assume a: "lex_number s = Some (v, rest)"
  define s1 where "s1 = (case s of [] \<Rightarrow> s | c # r \<Rightarrow> if c = 0x2D then r else s)"
  have s1: "length s1 \<le> length s"
    by (simp add: s1_def split: list.splits)
  from a obtain f s2 e where nonempty: "takeWhile is_digit s1 \<noteq> []"
    and f: "lex_fraction (dropWhile is_digit s1) = Some (f, s2)"
    and e: "lex_exponent s2 = Some (e, rest)"
    by (auto simp: lex_number_def Let_def s1_def split: list.splits if_splits option.splits)
  from tk [OF nonempty] fr [OF f] ex [OF e] s1 show ?thesis
    by simp
qed

lemma drop_prefix_shorter: "drop_prefix p cs = Some rest \<Longrightarrow> length rest < Suc (length cs)"
  by (auto simp: drop_prefix_def split: if_splits)

function lex :: "jsstring \<Rightarrow> token list option" where
  "lex [] = Some []"
| "lex (c # cs) =
     (if is_json_ws c then lex cs
      else if c = 0x7B then map_option (Cons LBrace) (lex cs)
      else if c = 0x7D then map_option (Cons RBrace) (lex cs)
      else if c = 0x5B then map_option (Cons LBracket) (lex cs)
      else if c = 0x5D then map_option (Cons RBracket) (lex cs)
      else if c = 0x3A then map_option (Cons Colon) (lex cs)
      else if c = 0x2C then map_option (Cons Comma) (lex cs)
      else if c = 0x22 then
        (case lex_string cs of
           None \<Rightarrow> None
         | Some (s, rest) \<Rightarrow> map_option (Cons (TString s)) (lex rest))
      else if c = 0x2D \<or> is_digit c then
        (case lex_number (c # cs) of
           None \<Rightarrow> None
         | Some (v, rest) \<Rightarrow> map_option (Cons (TNumber v)) (lex rest))
      else if c = 0x74 then
        (case drop_prefix (ascii ''rue'') cs of
           None \<Rightarrow> None
         | Some rest \<Rightarrow> map_option (Cons TTrue) (lex rest))
      else if c = 0x66 then
        (case drop_prefix (ascii ''alse'') cs of
           None \<Rightarrow> None
         | Some rest \<Rightarrow> map_option (Cons TFalse) (lex rest))
      else if c = 0x6E then
        (case drop_prefix (ascii ''ull'') cs of
           None \<Rightarrow> None
         | Some rest \<Rightarrow> map_option (Cons TNull) (lex rest))
      else None)"
  by pat_completeness auto
termination
  by (relation "measure length")
    (auto dest: lex_string_shorter lex_number_shorter drop_prefix_shorter)

subsection \<open>Values\<close>

text \<open>
  A key that is an array index (the canonical decimal form of an integer below
  \<open>2^32 - 1\<close>) comes before all other keys of an object, in ascending numeric order;
  the other keys keep the order in which they were first written. A key written again
  replaces the value of its first occurrence.
\<close>

definition array_index :: "jsstring \<Rightarrow> nat option" where
  "array_index k =
     (if k \<noteq> [] \<and> list_all is_digit k \<and> (hd k \<noteq> 0x30 \<or> length k = 1) \<and>
         int (decimal_value k) < 2 ^ 32 - 1
      then Some (decimal_value k) else None)"

fun insert_index :: "nat \<Rightarrow> jsstring \<Rightarrow> json \<Rightarrow> (jsstring \<times> json) list \<Rightarrow> (jsstring \<times> json) list" where
  "insert_index n k v [] = [(k, v)]"
| "insert_index n k v ((k', v') # ms) =
     (case array_index k' of
        None \<Rightarrow> (k, v) # (k', v') # ms
      | Some n' \<Rightarrow> if n' < n then (k', v') # insert_index n k v ms else (k, v) # (k', v') # ms)"

definition set_member :: "jsstring \<Rightarrow> json \<Rightarrow> (jsstring \<times> json) list \<Rightarrow> (jsstring \<times> json) list" where
  "set_member k v ms =
     (if k \<in> set (map fst ms) then map (\<lambda>(k', v'). if k' = k then (k', v) else (k', v')) ms
      else case array_index k of None \<Rightarrow> ms @ [(k, v)] | Some n \<Rightarrow> insert_index n k v ms)"

text \<open>
  The parser reads the tokens from left to right. Its state says what may come next;
  the containers that are still open are kept on a stack, each with what it holds so
  far (an object also with the key whose value is being read).
\<close>

datatype frame =
    InArray "json list"
  | InObject "(jsstring \<times> json) list" jsstring

datatype pstate =
    ExpectValue "frame list"
  | ArrayStart "frame list"
  | ArrayNext "json list" "frame list"
  | ObjectStart "frame list"
  | ObjectKey "(jsstring \<times> json) list" "frame list"
  | ObjectColon "(jsstring \<times> json) list" jsstring "frame list"
  | ObjectNext "(jsstring \<times> json) list" "frame list"
  | Finished json

text \<open>A complete value goes to the innermost open container, or is the result.\<close>

fun deliver :: "json \<Rightarrow> frame list \<Rightarrow> pstate" where
  "deliver v [] = Finished v"
| "deliver v (InArray xs # st) = ArrayNext (xs @ [v]) st"
| "deliver v (InObject ms k # st) = ObjectNext (set_member k v ms) st"

fun begin_value :: "token \<Rightarrow> frame list \<Rightarrow> pstate option" where
  "begin_value (TString s) st = Some (deliver (JString s) st)"
| "begin_value (TNumber r) st = Some (deliver (JNumber r) st)"
| "begin_value TTrue st = Some (deliver (JBool True) st)"
| "begin_value TFalse st = Some (deliver (JBool False) st)"
| "begin_value TNull st = Some (deliver JNull st)"
| "begin_value LBracket st = Some (ArrayStart st)"
| "begin_value LBrace st = Some (ObjectStart st)"
| "begin_value t st = None"

fun step :: "pstate \<Rightarrow> token \<Rightarrow> pstate option" where
  "step (ExpectValue st) t = begin_value t st"
| "step (ArrayStart st) t =
     (if t = RBracket then Some (deliver (JArray []) st) else begin_value t (InArray [] # st))"
| "step (ArrayNext xs st) t =
     (if t = Comma then Some (ExpectValue (InArray xs # st))
      else if t = RBracket then Some (deliver (JArray xs) st)
      else None)"
| "step (ObjectStart st) t =
     (case t of
        RBrace \<Rightarrow> Some (deliver (JObject []) st)
      | TString k \<Rightarrow> Some (ObjectColon [] k st)
      | _ \<Rightarrow> None)"
| "step (ObjectKey ms st) t = (case t of TString k \<Rightarrow> Some (ObjectColon ms k st) | _ \<Rightarrow> None)"
| "step (ObjectColon ms k st) t =
     (if t = Colon then Some (ExpectValue (InObject ms k # st)) else None)"
| "step (ObjectNext ms st) t =
     (if t = Comma then Some (ObjectKey ms st)
      else if t = RBrace then Some (deliver (JObject ms) st)
      else None)"
| "step (Finished v) t = None"

fun parse_tokens :: "pstate \<Rightarrow> token list \<Rightarrow> json option" where
  "parse_tokens p [] = (case p of Finished v \<Rightarrow> Some v | _ \<Rightarrow> None)"
| "parse_tokens p (t # ts) = (case step p t of None \<Rightarrow> None | Some p' \<Rightarrow> parse_tokens p' ts)"

text \<open>\<^verbatim>\<open>JSON.parse\<close> throws a SyntaxError on a text that is not a JSON text.\<close>

definition JSON_parse :: "jsstring \<Rightarrow> error + json" where
  "JSON_parse s =
     (case lex s of
        None \<Rightarrow> Inl SyntaxError
      | Some ts \<Rightarrow>
          (case parse_tokens (ExpectValue []) ts of
             None \<Rightarrow> Inl SyntaxError
           | Some v \<Rightarrow> Inr v))"

subsection \<open>Persistence\<close>

text \<open>
  The initialiser of the \<^verbatim>\<open>todos\<close> state:
  \<^verbatim>\<open>savedTodos ? JSON.parse(savedTodos) : []\<close>. An absent key reads as null, and null and
  the empty string are falsy.
\<close>

definition load_todos :: "jsstring option \<Rightarrow> error + json" where
  "load_todos savedTodos =
     (case savedTodos of
        None \<Rightarrow> Inr (JArray [])
      | Some s \<Rightarrow> if s = [] then Inr (JArray []) else JSON_parse s)"

text \<open>The persistence effect, run after every render in which \<^verbatim>\<open>todos\<close> changed.\<close>

definition persist :: "app \<Rightarrow> app" where
  "persist w = w\<lparr>storage := Some (JSON_stringify_todos (todos w))\<rparr>"

text \<open>The task list as the JavaScript value it is: an array of objects with four properties.\<close>

definition todo_json :: "todo \<Rightarrow> json" where
  "todo_json t =
     JObject
       [(ascii ''id'', JNumber (of_int (todo_id t))),
        (ascii ''text'', JString (todo_text t)),
        (ascii ''completed'', JBool (todo_completed t)),
        (ascii ''priority'', JString (todo_priority t))]"

definition todos_json :: "todo list \<Rightarrow> json" where
  "todos_json ts = JArray (map todo_json ts)"

section \<open>Auxiliary notions for the proofs\<close>

text \<open>The list after a click on the task with id \<open>i\<close>.\<close>

definition flip_id :: "int \<Rightarrow> todo list \<Rightarrow> todo list" where
  "flip_id i ts =
     map (\<lambda>t. if todo_id t = i then t\<lparr>todo_completed := \<not> todo_completed t\<rparr> else t) ts"

text \<open>
  The engine can sound: a context exists or can be constructed, and nodes can be had
  whenever the engine is enabled.
\<close>

definition audio_ok :: "audio \<Rightarrow> bool" where
  "audio_ok a \<longleftrightarrow> (audioCtx a \<or> ctor_ok a) \<and> (enabled a \<longrightarrow> node_ok a)"

text \<open>The tokens of a serialised task and of a serialised task list (without its brackets).\<close>

definition todo_tokens :: "todo \<Rightarrow> token list" where
  "todo_tokens t =
     [LBrace, TString (ascii ''id''), Colon, TNumber (of_int (todo_id t)), Comma,
      TString (ascii ''text''), Colon, TString (todo_text t), Comma,
      TString (ascii ''completed''), Colon, (if todo_completed t then TTrue else TFalse), Comma,
      TString (ascii ''priority''), Colon, TString (todo_priority t), RBrace]"

fun list_tokens :: "todo list \<Rightarrow> token list" where
  "list_tokens [] = []"
| "list_tokens [t] = todo_tokens t"
| "list_tokens (t # u # us) = todo_tokens t @ Comma # list_tokens (u # us)"

section \<open>Concrete states used as examples\<close>

definition task_a :: todo where
  "task_a = \<lparr>todo_id = 1, todo_text = ascii ''a'', todo_completed = False, todo_priority = ascii ''Low''\<rparr>"
definition task_b :: todo where
  "task_b = \<lparr>todo_id = 2, todo_text = ascii ''b'', todo_completed = True, todo_priority = ascii ''High''\<rparr>"

definition app_ab :: app where
  "app_ab = (initial_app (new_SoundEngine True True))\<lparr>todos := [task_a, task_b]\<rparr>"

text \<open>An engine whose audio context was constructed by an earlier trigger.\<close>

definition running_engine :: audio where
  "running_engine = (new_SoundEngine True True)\<lparr>audioCtx := True\<rparr>"

definition app_live :: app where
  "app_live = (initial_app running_engine)\<lparr>todos := [task_a, task_b]\<rparr>"

definition app_mute :: app where
  "app_mute = (initial_app (new_SoundEngine False True))\<lparr>todos := [task_a, task_b]\<rparr>"

definition busy_day :: "action list" where
  "busy_day =
     [Add (ascii ''Buy milk'') (ascii ''Medium'') 1000,
      Add (ascii ''   '') (ascii ''Medium'') 1000,
      Add (ascii ''Call Alice'') (ascii ''High'') 1001,
      Toggle 1000,
      Reorder
        [\<lparr>todo_id = 1000, todo_text = ascii ''Buy milk'', todo_completed = True,
           todo_priority = ascii ''Medium''\<rparr>,
         \<lparr>todo_id = 1001, todo_text = ascii ''Call Alice'', todo_completed = False,
           todo_priority = ascii ''High''\<rparr>],
      Delete 1001]"


section \<open>Basic facts about sequencing and the handlers\<close>

lemma seq_alt: "seq f g s = (if fst (f s) = Ok then g (snd (f s)) else f s)"
  by (simp add: seq_def split: prod.splits outcome.splits)

lemma soundEngine_alt: "soundEngine m w = (fst (m (sound w)), w\<lparr>sound := snd (m (sound w))\<rparr>)"
  by (simp add: soundEngine_def split: prod.splits)

lemmas sound_defs = seq_alt done_with_def init_def createOscillator_def setTimeout_def

lemma playToggle_ok: "fst (playToggle b a) = Ok \<longleftrightarrow> audio_ok a"
  by (auto simp: playToggle_def sound_defs audio_ok_def)

lemma playToggle_keeps_ok: "audio_ok (snd (playToggle b a)) = audio_ok a"
  by (auto simp: playToggle_def sound_defs audio_ok_def)

lemma playDelete_ok: "fst (playDelete a) = Ok \<longleftrightarrow> audio_ok a"
  by (auto simp: playDelete_def sound_defs audio_ok_def)

lemma flip_id_twice: "flip_id i (flip_id i ts) = ts"
  by (induction ts) (auto simp: flip_id_def)

lemma find_flip_id: "find (\<lambda>t. todo_id t = i) (flip_id i ts) = None \<longleftrightarrow> find (\<lambda>t. todo_id t = i) ts = None"
  by (induction ts) (auto simp: flip_id_def)

lemma toggleTodo_fst:
  "fst (toggleTodo i w) = Ok \<longleftrightarrow> find (\<lambda>t. todo_id t = i) (todos w) = None \<or> audio_ok (sound w)"
  by (auto simp: toggleTodo_def seq_alt done_with_def soundEngine_alt Let_def playToggle_ok
      split: option.splits)

lemma toggleTodo_todos:
  "todos (snd (toggleTodo i w)) = (if fst (toggleTodo i w) = Ok then flip_id i (todos w) else todos w)"
  by (auto simp: toggleTodo_def seq_alt done_with_def soundEngine_alt Let_def flip_id_def
      split: option.splits)

lemma toggleTodo_sound_ok: "audio_ok (sound (snd (toggleTodo i w))) = audio_ok (sound w)"
  by (auto simp: toggleTodo_def seq_alt done_with_def soundEngine_alt Let_def playToggle_keeps_ok
      split: option.splits)

lemma toggleTodo_twice_todos: "todos (snd (toggleTodo i (snd (toggleTodo i w)))) = todos w"
proof (cases "fst (toggleTodo i w) = Ok")
  case True
  then have "fst (toggleTodo i (snd (toggleTodo i w))) = Ok"
    by (auto simp add: toggleTodo_fst toggleTodo_todos toggleTodo_sound_ok find_flip_id)
  with True show ?thesis
    by (simp add: toggleTodo_todos flip_id_twice)
next
  case False
  then have "fst (toggleTodo i (snd (toggleTodo i w))) \<noteq> Ok"
    by (auto simp add: toggleTodo_fst toggleTodo_todos toggleTodo_sound_ok)
  with False show ?thesis
    by (simp add: toggleTodo_todos)
qed

lemma soundEngine_frame:
  "todos (snd (soundEngine m w)) = todos w"
  "inputValue (snd (soundEngine m w)) = inputValue w"
  "priority (snd (soundEngine m w)) = priority w"
  "storage (snd (soundEngine m w)) = storage w"
  "sound (snd (soundEngine m w)) = snd (m (sound w))"
  "fst (soundEngine m w) = fst (m (sound w))"
  by (simp_all add: soundEngine_def split: prod.splits)

lemma addTodo_blank: "trim (inputValue w) = [] \<Longrightarrow> addTodo now w = (Ok, w)"
  by (simp add: addTodo_def)

lemma addTodo_todos:
  "trim (inputValue w) \<noteq> [] \<Longrightarrow>
   todos (snd (addTodo now w)) =
     \<lparr>todo_id = now, todo_text = inputValue w, todo_completed = False, todo_priority = priority w\<rparr> # todos w"
  by (simp add: addTodo_def seq_def done_with_def soundEngine_def Let_def split: prod.splits outcome.splits)

lemma trim_ex1: "trim (ascii '' a'') = ascii ''a''"
  by (simp add: trim_def ascii_def is_trim_space_def)
lemma trim_ex2: "trim (ascii ''   '') = []"
  by (simp add: trim_def ascii_def is_trim_space_def)

lemma absent_filter: "i \<notin> set (map todo_id ts) \<Longrightarrow> filter (\<lambda>t. todo_id t \<noteq> i) ts = ts"
  by (induction ts) auto

lemma absent_find: "i \<notin> set (map todo_id ts) \<Longrightarrow> find (\<lambda>t. todo_id t = i) ts = None"
  by (induction ts) auto

lemma absent_flip: "i \<notin> set (map todo_id ts) \<Longrightarrow> flip_id i ts = ts"
  by (induction ts) (auto simp: flip_id_def)

lemma toggleTodo_absent: "i \<notin> set (map todo_id (todos w)) \<Longrightarrow> toggleTodo i w = (Ok, w)"
  using absent_flip [of i "todos w"]
  by (simp add: toggleTodo_def absent_find seq_alt done_with_def flip_id_def)

lemma deleteTodo_sound:
  "sound (snd (deleteTodo i w)) = snd (playDelete (sound w))"
  "fst (deleteTodo i w) = fst (playDelete (sound w))"
  by (simp_all add: deleteTodo_def seq_alt done_with_def soundEngine_alt)

lemma deleteTodo_todos:
  "todos (snd (deleteTodo i w)) =
     (if fst (deleteTodo i w) = Ok then filter (\<lambda>t. todo_id t \<noteq> i) (todos w) else todos w)"
  by (simp add: deleteTodo_def seq_alt done_with_def soundEngine_alt)

lemma playDelete_active:
  "audioCtx a \<Longrightarrow> enabled a \<Longrightarrow> node_ok a \<Longrightarrow>
   playDelete a = (Ok, a\<lparr>backend := backend a @ tone_calls 300 Sawtooth 0.1 0.02\<rparr>)"
  by (simp add: playDelete_def sound_defs)

lemma playDelete_audible:
  assumes "audioCtx a \<or> ctor_ok a" "enabled a" "node_ok a"
  shows "playDelete a =
     (Ok, a\<lparr>audioCtx := True,
            backend := backend a @ (if audioCtx a then [] else [NewAudioContext]) @
              [CreateOscillator, CreateGain, SetType Sawtooth, FrequencySetValueAtTime 300,
               GainSetValueAtTime 0.02, GainExponentialRamp 0.0001 0.1,
               ConnectOscToGain, ConnectGainToDestination, OscStart, OscStop 0.1]\<rparr>)"
  using assms by (auto simp: playDelete_def sound_defs tone_calls_def)

lemma tone_trigger_outcome:
  "m \<in> set tone_triggers \<Longrightarrow>
   fst (m a) = (if \<not> audioCtx a \<and> \<not> ctor_ok a then Threw TypeError
                else if enabled a \<and> \<not> node_ok a then Threw DOMException else Ok)"
  by (auto simp: tone_triggers_def playClick_def playAdd_def playToggle_def playDelete_def
      playCredits_def sound_defs)

lemma init_failure: "\<not> audioCtx a \<Longrightarrow> \<not> ctor_ok a \<Longrightarrow> m \<in> set tone_triggers \<Longrightarrow> m a = (Threw TypeError, a)"
  by (auto simp: tone_triggers_def playClick_def playAdd_def playToggle_def playDelete_def
      playCredits_def sound_defs)

lemma playVictory_outcome:
  "fst (playVictory a) = (if \<not> audioCtx a \<and> \<not> ctor_ok a then Threw TypeError else Ok)"
  by (auto simp: playVictory_def sound_defs)

lemma addTodo_outcome:
  "trim (inputValue w) \<noteq> [] \<Longrightarrow> fst (addTodo now w) = fst (playAdd (sound w))"
  by (simp add: addTodo_def seq_alt done_with_def soundEngine_alt Let_def)

lemma fire_disabled_tone:
  "\<not> enabled a \<Longrightarrow> fire (Tone f ty d v) a = a"
  by (simp add: createOscillator_def)

lemma run_timers_single_tone:
  "\<not> enabled a \<Longrightarrow> timers a = [(n, Tone f ty d v)] \<Longrightarrow> backend (run_timers a) = backend a"
  by (simp add: run_timers_def createOscillator_def)

lemma run_timers_none: "timers a = [] \<Longrightarrow> backend (run_timers a) = backend a"
  by (simp add: run_timers_def)

lemma addTodo_todos_blank: "trim (inputValue w) = [] \<Longrightarrow> todos (snd (addTodo now w)) = todos w"
  by (simp add: addTodo_blank)

lemma toggleTodo_ids: "map todo_id (todos (snd (toggleTodo i w))) = map todo_id (todos w)"
  by (simp add: toggleTodo_todos flip_id_def comp_def)

lemma handle_keeps_distinct:
  assumes "distinct (map todo_id (todos w))"
    and "admissible [act] w"
  shows "distinct (map todo_id (todos (snd (handle act w))))"
proof (cases act)
  case (Add input p now)
  show ?thesis
  proof (cases "trim input = []")
    case True
    with Add assms show ?thesis
      by (simp add: addTodo_blank setPriority_def setInputValue_def)
  next
    case False
    with Add assms show ?thesis
      by (simp add: addTodo_todos setPriority_def setInputValue_def)
  qed
next
  case (Toggle i)
  with assms show ?thesis by (simp add: toggleTodo_ids)
next
  case (Delete i)
  with assms show ?thesis by (simp add: deleteTodo_todos distinct_map_filter)
next
  case (Reorder newOrder)
  with assms have "mset (map todo_id newOrder) = mset (map todo_id (todos w))"
    by simp
  then have "distinct (map todo_id newOrder) = distinct (map todo_id (todos w))"
    by (rule mset_eq_imp_distinct_iff)
  with Reorder assms show ?thesis
    by (simp add: reorder_def done_with_def)
qed

lemma admissible_Cons:
  "admissible (act # acts) w \<longleftrightarrow> admissible [act] w \<and> admissible acts (snd (handle act w))"
  by (cases act) simp_all

lemma run_keeps_distinct:
  "distinct (map todo_id (todos w)) \<Longrightarrow> admissible acts w \<Longrightarrow>
   distinct (map todo_id (todos (run acts w)))"
proof (induction acts arbitrary: w)
  case Nil
  then show ?case by simp
next
  case (Cons act acts)
  from Cons.prems have one: "admissible [act] w" and rest: "admissible acts (snd (handle act w))"
    by (simp_all add: admissible_Cons [of act acts])
  from Cons.prems(1) one have "distinct (map todo_id (todos (snd (handle act w))))"
    by (rule handle_keeps_distinct)
  with rest show ?case
    by (simp add: Cons.IH)
qed

lemma playAdd_ok: "fst (playAdd a) = Ok \<longleftrightarrow> audio_ok a"
  by (auto simp: playAdd_def sound_defs audio_ok_def)

lemma playAdd_keeps_ok: "audio_ok (snd (playAdd a)) = audio_ok a"
  by (auto simp: playAdd_def sound_defs audio_ok_def)

lemma playDelete_keeps_ok: "audio_ok (snd (playDelete a)) = audio_ok a"
  by (auto simp: playDelete_def sound_defs audio_ok_def)

lemma new_SoundEngine_ok: "audio_ok (new_SoundEngine True True)"
  by (simp add: audio_ok_def new_SoundEngine_def)

lemma trim_examples:
  "trim (ascii ''Buy milk'') \<noteq> []" "trim (ascii ''Call Alice'') \<noteq> []" "trim (ascii ''   '') = []"
  by (simp_all add: trim_def is_trim_space_def ascii_def)

lemma busy_day_run:
  "admissible busy_day (initial_app (new_SoundEngine True True))"
  "todos (run busy_day (initial_app (new_SoundEngine True True))) =
     [\<lparr>todo_id = 1000, todo_text = ascii ''Buy milk'', todo_completed = True,
        todo_priority = ascii ''Medium''\<rparr>]"
  by (simp_all add: busy_day_def initial_app_def addTodo_def toggleTodo_def deleteTodo_def
      reorder_def setPriority_def setInputValue_def soundEngine_alt seq_alt done_with_def
      trim_examples Let_def playAdd_ok playAdd_keeps_ok playToggle_ok playToggle_keeps_ok
      playDelete_ok playDelete_keeps_ok new_SoundEngine_ok)

section \<open>Facts about the JSON functions\<close>

lemma lex_truncated:
  "lex (ascii ''[{\"id\":1,'') = Some [LBracket, LBrace, TString (ascii ''id''), Colon, TNumber 1, Comma]"
  by (simp add: ascii_def is_json_ws_def is_digit_def lex_number_def lex_fraction_def
      lex_exponent_def decimal_value_def digit_value_def pow10_def)

subsection \<open>Decimal digits\<close>

lemma unat_small: "n < 65536 \<Longrightarrow> unat (of_nat n :: jschar) = n"
  by (simp add: unat_of_nat)

lemma digit_char:
  assumes "d < 10"
  shows "is_digit (decimal_digit d)" and "digit_value (decimal_digit d) = d"
    and "(decimal_digit d) \<noteq> 0x2D"
    and "(decimal_digit d) = 0x30 \<longleftrightarrow> d = 0"
proof -
  have u: "unat (decimal_digit d) = 48 + d"
    unfolding decimal_digit_def using assms by (intro unat_small) simp
  show "is_digit (decimal_digit d)"
    using assms u by (simp add: is_digit_def word_le_nat_alt)
  show "digit_value (decimal_digit d) = d"
    using u by (simp add: digit_value_def)
  show "(decimal_digit d) \<noteq> 0x2D"
    using u by (auto simp: word_unat_eq_iff)
  show "(decimal_digit d) = 0x30 \<longleftrightarrow> d = 0"
    using u by (auto simp: word_unat_eq_iff)
qed

declare digits_of.simps [simp del]

lemma decimal_value_snoc: "decimal_value (ds @ [c]) = 10 * decimal_value ds + digit_value c"
  by (simp add: decimal_value_def)

lemma digits_of_digits: "list_all is_digit (digits_of n)"
  by (induction n rule: digits_of.induct) (subst digits_of.simps, simp add: digit_char)

lemma digits_of_value: "decimal_value (digits_of n) = n"
proof (induction n rule: digits_of.induct)
  case (1 n)
  show ?case
  proof (cases "n < 10")
    case True
    then show ?thesis
      by (subst digits_of.simps) (simp add: decimal_value_def digit_char)
  next
    case False
    with 1 show ?thesis
      by (subst digits_of.simps) (simp add: decimal_value_snoc digit_char)
  qed
qed

lemma digits_of_nonempty: "digits_of n \<noteq> []"
  by (subst digits_of.simps) simp

lemma digits_of_hd: "hd (digits_of n) = 0x30 \<longleftrightarrow> n = 0"
proof (induction n rule: digits_of.induct)
  case (1 n)
  show ?case
  proof (cases "n < 10")
    case True
    then show ?thesis
      by (subst digits_of.simps) (simp add: digit_char)
  next
    case False
    then have "n div 10 \<noteq> 0" by simp
    with False 1 show ?thesis
      by (subst digits_of.simps) (simp add: digits_of_nonempty)
  qed
qed

lemma digits_of_length: "1 < length (digits_of n) \<Longrightarrow> n \<noteq> 0"
  by (subst (asm) digits_of.simps) (auto split: if_splits)

subsection \<open>Reading back a serialised id\<close>

lemma takeWhile_digits:
  "list_all is_digit ds \<Longrightarrow> \<not> is_digit c \<Longrightarrow>
   takeWhile is_digit (ds @ c # rest) = ds \<and> dropWhile is_digit (ds @ c # rest) = c # rest"
  by (induction ds) auto

lemma lex_digits:
  assumes "\<not> is_digit c" "c \<noteq> 0x2E" "c \<noteq> 0x65" "c \<noteq> 0x45"
  shows "lex_number (digits_of n @ c # rest) = Some (of_nat n, c # rest)"
proof -
  obtain d ds where ds: "digits_of n = d # ds"
    using digits_of_nonempty [of n] by (cases "digits_of n") auto
  have d: "is_digit d"
    using digits_of_digits [of n] ds by simp
  then have nominus: "d \<noteq> 0x2D"
    by (auto simp: is_digit_def)
  have tw: "takeWhile is_digit (digits_of n @ c # rest) = digits_of n"
    and dw: "dropWhile is_digit (digits_of n @ c # rest) = c # rest"
    using takeWhile_digits [OF digits_of_digits assms(1)] by simp_all
  have lead: "\<not> (hd (digits_of n) = 0x30 \<and> 1 < length (digits_of n))"
    using digits_of_hd [of n] digits_of_length [of n] by blast
  have fr: "lex_fraction (c # rest) = Some (0, c # rest)"
    using assms by (simp add: lex_fraction_def)
  have ex: "lex_exponent (c # rest) = Some (0, c # rest)"
    using assms by (simp add: lex_exponent_def)
  have "lex_number (d # ds @ c # rest) = Some (of_nat n, c # rest)"
    using nominus tw dw lead fr ex digits_of_nonempty [of n]
    by (simp add: lex_number_def ds digits_of_value [of n, unfolded ds] pow10_def
        del: takeWhile.simps dropWhile.simps)
  then show ?thesis
    by (simp add: ds)
qed

lemma lex_minus_digits:
  assumes "\<not> is_digit c" "c \<noteq> 0x2E" "c \<noteq> 0x65" "c \<noteq> 0x45"
  shows "lex_number (0x2D # digits_of n @ c # rest) = Some (- of_nat n, c # rest)"
proof -
  have tw: "takeWhile is_digit (digits_of n @ c # rest) = digits_of n"
    and dw: "dropWhile is_digit (digits_of n @ c # rest) = c # rest"
    using takeWhile_digits [OF digits_of_digits assms(1)] by simp_all
  have lead: "\<not> (hd (digits_of n) = 0x30 \<and> 1 < length (digits_of n))"
    using digits_of_hd [of n] digits_of_length [of n] by blast
  have fr: "lex_fraction (c # rest) = Some (0, c # rest)"
    using assms by (simp add: lex_fraction_def)
  have ex: "lex_exponent (c # rest) = Some (0, c # rest)"
    using assms by (simp add: lex_exponent_def)
  show ?thesis
    using tw dw lead fr ex digits_of_nonempty [of n]
    by (simp add: lex_number_def digits_of_value pow10_def Let_def)
qed

lemma lex_Number_toString:
  assumes "\<not> is_digit c" "c \<noteq> 0x2E" "c \<noteq> 0x65" "c \<noteq> 0x45"
  shows "lex_number (Number_toString n @ c # rest) = Some (of_int n, c # rest)"
proof (cases "n < 0")
  case True
  then have v: "- rat_of_nat (nat (- n)) = of_int n"
    by simp
  from True have "Number_toString n @ c # rest = 0x2D # digits_of (nat (- n)) @ c # rest"
    by (simp add: Number_toString_def)
  then have "lex_number (Number_toString n @ c # rest) = Some (- rat_of_nat (nat (- n)), c # rest)"
    by (simp only: lex_minus_digits [OF assms])
  then show ?thesis
    by (simp only: v)
next
  case False
  then have v: "rat_of_nat (nat n) = of_int n"
    by simp
  from False have "Number_toString n @ c # rest = digits_of (nat n) @ c # rest"
    by (simp add: Number_toString_def)
  then have "lex_number (Number_toString n @ c # rest) = Some (rat_of_nat (nat n), c # rest)"
    by (simp only: lex_digits [OF assms])
  then show ?thesis
    by (simp only: v)
qed

lemma Number_toString_starts:
  obtains h t where "Number_toString n = h # t" and "h = 0x2D \<or> is_digit h"
proof (cases "n < 0")
  case True
  then have "Number_toString n = 0x2D # digits_of (nat (- n))"
    by (simp add: Number_toString_def)
  then show ?thesis
    using that by blast
next
  case False
  obtain d ds where ds: "digits_of (nat n) = d # ds"
    using digits_of_nonempty [of "nat n"] by (cases "digits_of (nat n)") auto
  then have "is_digit d"
    using digits_of_digits [of "nat n"] by simp
  with False ds show ?thesis
    using that by (simp add: Number_toString_def)
qed

declare lex.simps [simp del]

lemma lex_number_dispatch:
  assumes "h = 0x2D \<or> is_digit h"
  shows "lex (h # t) =
     (case lex_number (h # t) of
        None \<Rightarrow> None
      | Some (v, rest) \<Rightarrow> map_option (Cons (TNumber v)) (lex rest))"
proof -
  from assms have other: "\<not> is_json_ws h" "h \<noteq> 0x7B" "h \<noteq> 0x7D" "h \<noteq> 0x5B" "h \<noteq> 0x5D"
    "h \<noteq> 0x3A" "h \<noteq> 0x2C" "h \<noteq> 0x22"
    by (auto simp: is_digit_def is_json_ws_def)
  show ?thesis
    by (subst lex.simps) (simp only: other assms if_True if_False)
qed

lemma lex_number_token:
  assumes "\<not> is_digit c" "c \<noteq> 0x2E" "c \<noteq> 0x65" "c \<noteq> 0x45"
  shows "lex (Number_toString n @ c # rest) = map_option (Cons (TNumber (of_int n))) (lex (c # rest))"
proof -
  obtain h t where ht: "Number_toString n = h # t" and h: "h = 0x2D \<or> is_digit h"
    by (rule Number_toString_starts)
  have "lex_number (h # t @ c # rest) = Some (of_int n, c # rest)"
    using lex_Number_toString [OF assms, of n rest] by (simp add: ht)
  then have "lex (h # t @ c # rest) = map_option (Cons (TNumber (of_int n))) (lex (c # rest))"
    by (simp add: lex_number_dispatch [OF h])
  then show ?thesis
    by (simp add: ht)
qed

subsection \<open>Reading back a quoted string\<close>

lemma unat_hex_digit: "d < 16 \<Longrightarrow> unat (hex_digit d) = (if d < 10 then 48 + d else 87 + d)"
proof (cases "d < 10")
  case True
  then have "unat (of_nat (48 + d) :: jschar) = 48 + d"
    by (intro unat_small) simp
  with True show ?thesis
    by (simp only: hex_digit_def if_True)
next
  case False
  assume "d < 16"
  then have "unat (of_nat (87 + d) :: jschar) = 87 + d"
    by (intro unat_small) simp
  with False show ?thesis
    by (simp only: hex_digit_def if_False)
qed

lemma hex_value_hex_digit: "d < 16 \<Longrightarrow> hex_value (hex_digit d) = Some d"
  by (simp add: hex_value_def unat_hex_digit)

lemma hex_split:
  "4096 * (n div 4096) + 256 * (n div 256 mod 16) + 16 * (n div 16 mod 16) + n mod 16 = (n::nat)"
proof -
  have x2: "n div 256 = n div 16 div 16" and x3: "n div 4096 = n div 256 div 16"
    by (simp_all add: div_mult2_eq)
  have "n = 16 * (n div 16) + n mod 16"
    and "n div 16 = 16 * (n div 256) + n div 16 mod 16"
    and "n div 256 = 16 * (n div 4096) + n div 256 mod 16"
    unfolding x2 x3 by (rule mult_div_mod_eq [symmetric])+
  then show ?thesis
    by linarith
qed

lemma hex4_digits:
  assumes "n < 65536"
  shows "hex4 (hex_digit (n div 4096)) (hex_digit (n div 256 mod 16))
           (hex_digit (n div 16 mod 16)) (hex_digit (n mod 16)) = Some (of_nat n)"
proof -
  have "n div 4096 < 16"
    using assms by simp
  then show ?thesis
    by (simp add: hex4_def hex_value_hex_digit hex_split)
qed

declare lex_string.simps [simp del] quote_chars.simps [simp del]

lemma lex_string_unicode_escape:
  "lex_string (unicode_escape c @ r) = map_option (\<lambda>(s, rest). (c # s, rest)) (lex_string r)"
proof -
  have "unat c < 65536"
    using unsigned_less [of c, where 'a = nat] by simp
  from hex4_digits [OF this]
  have h: "hex4 (hex_digit (unat c div 4096)) (hex_digit (unat c div 256 mod 16))
           (hex_digit (unat c div 16 mod 16)) (hex_digit (unat c mod 16)) = Some c"
    by simp
  show ?thesis
    by (simp add: unicode_escape_def Let_def lex_string.simps(2) [of "0x5C"] h)
qed

lemma lex_string_escape:
  "unescape e = Some u \<Longrightarrow> e \<noteq> 0x75 \<Longrightarrow>
   lex_string (0x5C # e # r) = map_option (\<lambda>(s, rest). (u # s, rest)) (lex_string r)"
  by (simp add: lex_string.simps(2) [of "0x5C"])

lemma lex_string_plain:
  "c \<noteq> 0x22 \<Longrightarrow> c \<noteq> 0x5C \<Longrightarrow> \<not> c < 0x20 \<Longrightarrow>
   lex_string (c # r) = map_option (\<lambda>(s, rest). (c # s, rest)) (lex_string r)"
  by (simp add: lex_string.simps(2) [of c])

lemma lex_string_end: "lex_string (0x22 # r) = Some ([], r)"
  by (simp add: lex_string.simps)

lemma surrogate_plain:
  assumes "is_high_surrogate c \<or> is_low_surrogate c"
  shows "c \<noteq> 0x22" "c \<noteq> 0x5C" "\<not> c < 0x20"
  using assms
  by (auto simp: is_high_surrogate_def is_low_surrogate_def word_le_nat_alt word_less_nat_alt)

lemma lex_string_quote_chars: "lex_string (quote_chars s @ 0x22 # rest) = Some (s, rest)"
proof (induction "length s" arbitrary: s rule: less_induct)
  case less
  show ?case
  proof (cases s)
    case Nil
    then show ?thesis
      by (simp add: quote_chars.simps lex_string_end)
  next
    case (Cons c cs)
    have IH: "lex_string (quote_chars r @ 0x22 # rest) = Some (r, rest)" if "length r < length s" for r
      using less [OF that] .
    have tail: "lex_string (quote_chars cs @ 0x22 # rest) = Some (cs, rest)"
      using IH [of cs] Cons by simp
    have two: "lex_string (0x5C # e # quote_chars cs @ 0x22 # rest) = Some (c # cs, rest)"
      if "unescape e = Some c" "e \<noteq> 0x75" for e
      using that by (simp add: lex_string_escape tail)
    have uni: "lex_string (unicode_escape c @ quote_chars cs @ 0x22 # rest) = Some (c # cs, rest)"
      by (simp add: lex_string_unicode_escape tail)
    consider (bs) "c = 0x08" | (tab) "c = 0x09" | (lf) "c = 0x0A" | (ff) "c = 0x0C" | (cr) "c = 0x0D"
      | (quote) "c = 0x22" | (backslash) "c = 0x5C"
      | (other) "c \<noteq> 0x08" "c \<noteq> 0x09" "c \<noteq> 0x0A" "c \<noteq> 0x0C" "c \<noteq> 0x0D" "c \<noteq> 0x22" "c \<noteq> 0x5C"
      by blast
    then show ?thesis
    proof cases
      case bs
      then have "quote_chars s = 0x5C # 0x62 # quote_chars cs"
        by (simp add: Cons quote_chars.simps(2))
      with two [of "0x62"] bs show ?thesis by (simp add: unescape_def Cons)
    next
      case tab
      then have "quote_chars s = 0x5C # 0x74 # quote_chars cs"
        by (simp add: Cons quote_chars.simps(2))
      with two [of "0x74"] tab show ?thesis by (simp add: unescape_def Cons)
    next
      case lf
      then have "quote_chars s = 0x5C # 0x6E # quote_chars cs"
        by (simp add: Cons quote_chars.simps(2))
      with two [of "0x6E"] lf show ?thesis by (simp add: unescape_def Cons)
    next
      case ff
      then have "quote_chars s = 0x5C # 0x66 # quote_chars cs"
        by (simp add: Cons quote_chars.simps(2))
      with two [of "0x66"] ff show ?thesis by (simp add: unescape_def Cons)
    next
      case cr
      then have "quote_chars s = 0x5C # 0x72 # quote_chars cs"
        by (simp add: Cons quote_chars.simps(2))
      with two [of "0x72"] cr show ?thesis by (simp add: unescape_def Cons)
    next
      case quote
      then have "quote_chars s = 0x5C # 0x22 # quote_chars cs"
        by (simp add: Cons quote_chars.simps(2))
      with two [of "0x22"] quote show ?thesis by (simp add: unescape_def Cons)
    next
      case backslash
      then have "quote_chars s = 0x5C # 0x5C # quote_chars cs"
        by (simp add: Cons quote_chars.simps(2))
      with two [of "0x5C"] backslash show ?thesis by (simp add: unescape_def Cons)
    next
      case other
      show ?thesis
      proof (cases "c < 0x20")
        case True
        with other have "quote_chars s = unicode_escape c @ quote_chars cs"
          by (simp add: Cons quote_chars.simps(2))
        with uni show ?thesis by (simp add: Cons)
      next
        case printable: False
        show ?thesis
        proof (cases "is_high_surrogate c")
          case high: True
          show ?thesis
          proof (cases cs)
            case Nil
            with other printable high have "quote_chars s = unicode_escape c"
              by (simp add: Cons quote_chars.simps(2))
            with uni Nil show ?thesis by (simp add: Cons quote_chars.simps(1))
          next
            case inner: (Cons d ds)
            show ?thesis
            proof (cases "is_low_surrogate d")
              case True
              with other printable high inner have q: "quote_chars s = c # d # quote_chars ds"
                by (simp add: Cons quote_chars.simps(2))
              have "lex_string (quote_chars ds @ 0x22 # rest) = Some (ds, rest)"
                using IH [of ds] Cons inner by simp
              with True have "lex_string (d # quote_chars ds @ 0x22 # rest) = Some (d # ds, rest)"
                by (simp add: lex_string_plain surrogate_plain)
              with other printable have
                "lex_string (c # d # quote_chars ds @ 0x22 # rest) = Some (c # d # ds, rest)"
                by (simp add: lex_string_plain)
              with q show ?thesis by (simp add: Cons inner)
            next
              case False
              with other printable high inner have "quote_chars s = unicode_escape c @ quote_chars cs"
                by (simp add: Cons quote_chars.simps(2))
              with uni show ?thesis by (simp add: Cons)
            qed
          qed
        next
          case nothigh: False
          show ?thesis
          proof (cases "is_low_surrogate c")
            case True
            with other printable nothigh have "quote_chars s = unicode_escape c @ quote_chars cs"
              by (simp add: Cons quote_chars.simps(2))
            with uni show ?thesis by (simp add: Cons)
          next
            case False
            with other printable nothigh have "quote_chars s = c # quote_chars cs"
              by (simp add: Cons quote_chars.simps(2))
            with other printable tail show ?thesis
              by (simp add: Cons lex_string_plain)
          qed
        qed
      qed
    qed
  qed
qed

subsection \<open>Reading back a serialised task list\<close>

lemma lex_structural:
  "lex (0x7B # r) = map_option (Cons LBrace) (lex r)"
  "lex (0x7D # r) = map_option (Cons RBrace) (lex r)"
  "lex (0x5B # r) = map_option (Cons LBracket) (lex r)"
  "lex (0x5D # r) = map_option (Cons RBracket) (lex r)"
  "lex (0x3A # r) = map_option (Cons Colon) (lex r)"
  "lex (0x2C # r) = map_option (Cons Comma) (lex r)"
  by (simp_all add: lex.simps(2) is_json_ws_def)

lemma lex_quoted: "lex (QuoteJSONString s @ r) = map_option (Cons (TString s)) (lex r)"
  by (simp add: QuoteJSONString_def lex.simps(2) [of "0x22"] is_json_ws_def lex_string_quote_chars)

lemma lex_literals:
  "lex (ascii ''true'' @ r) = map_option (Cons TTrue) (lex r)"
  "lex (ascii ''false'' @ r) = map_option (Cons TFalse) (lex r)"
  by (simp_all add: ascii_def lex.simps(2) is_json_ws_def is_digit_def drop_prefix_def)

lemma lex_id: "lex (Number_toString n @ 0x2C # r) = map_option (Cons (TNumber (of_int n))) (lex (0x2C # r))"
  by (rule lex_number_token) (simp_all add: is_digit_def)

lemma lex_todo: "lex (stringify_todo t @ r) = map_option ((@) (todo_tokens t)) (lex r)"
proof (cases "lex r")
  case None
  then show ?thesis
    by (cases "todo_completed t")
      (simp_all add: stringify_todo_def lex_structural lex_quoted lex_literals lex_id)
next
  case (Some ts)
  then show ?thesis
    by (cases "todo_completed t")
      (simp_all add: stringify_todo_def todo_tokens_def lex_structural lex_quoted lex_literals lex_id)
qed

lemma lex_join: "lex (join_comma (map stringify_todo ts) @ r) = map_option ((@) (list_tokens ts)) (lex r)"
proof (induction ts rule: list_tokens.induct)
  case 1
  show ?case by (simp add: option.map_ident)
next
  case (2 t)
  show ?case by (simp add: lex_todo)
next
  case (3 t u us)
  then show ?case
    by (simp add: lex_todo lex_structural option.map_comp comp_def)
qed

lemma lex_stringify: "lex (JSON_stringify_todos ts) = Some (LBracket # list_tokens ts @ [RBracket])"
  by (simp add: JSON_stringify_todos_def lex_structural lex_join lex.simps(1))

lemma key_members:
  "set_member (ascii ''id'') a [] = [(ascii ''id'', a)]"
  "set_member (ascii ''text'') b [(ascii ''id'', a)] = [(ascii ''id'', a), (ascii ''text'', b)]"
  "set_member (ascii ''completed'') c [(ascii ''id'', a), (ascii ''text'', b)] =
     [(ascii ''id'', a), (ascii ''text'', b), (ascii ''completed'', c)]"
  "set_member (ascii ''priority'') d [(ascii ''id'', a), (ascii ''text'', b), (ascii ''completed'', c)] =
     [(ascii ''id'', a), (ascii ''text'', b), (ascii ''completed'', c), (ascii ''priority'', d)]"
  by (simp_all add: set_member_def array_index_def ascii_def is_digit_def)

lemma parse_todo:
  "parse_tokens (ExpectValue (InArray xs # st)) (todo_tokens t @ rest) =
   parse_tokens (ArrayNext (xs @ [todo_json t]) st) rest"
  by (simp add: todo_tokens_def todo_json_def key_members)

lemma parse_list:
  "parse_tokens (ExpectValue (InArray xs # [])) (list_tokens (t # ts) @ [RBracket]) =
   Some (JArray (xs @ map todo_json (t # ts)))"
proof (induction ts arbitrary: xs t)
  case Nil
  show ?case by (simp add: parse_todo)
next
  case (Cons u us)
  show ?case
    using Cons [of "xs @ [todo_json t]" u] by (simp add: parse_todo)
qed

lemma parse_stringify:
  "parse_tokens (ExpectValue []) (LBracket # list_tokens ts @ [RBracket]) = Some (todos_json ts)"
proof (cases ts)
  case Nil
  then show ?thesis by (simp add: todos_json_def)
next
  case (Cons t us)
  have first: "list_tokens (t # us) = LBrace # tl (list_tokens (t # us))"
    by (cases us) (simp_all add: todo_tokens_def)
  have "parse_tokens (ArrayStart []) (list_tokens (t # us) @ [RBracket]) =
        parse_tokens (ExpectValue [InArray []]) (list_tokens (t # us) @ [RBracket])"
    by (subst (1 2) first) simp
  then show ?thesis
    using parse_list [of "[]" t us] by (simp add: Cons todos_json_def)
qed

lemma JSON_round_trip: "JSON_parse (JSON_stringify_todos ts) = Inr (todos_json ts)"
  by (simp only: JSON_parse_def lex_stringify parse_stringify option.case)

lemma todos_json_inj: "todos_json ts = todos_json ts' \<longleftrightarrow> ts = ts'"
proof -
  have "inj todo_json"
    by (rule injI) (simp add: todo_json_def)
  then show ?thesis
    by (auto simp: todos_json_def dest: map_injective)
qed

section \<open>Facts about rounding to doubles\<close>













text \<open>The model agrees with the doubles a JavaScript engine computes.\<close>

lemma to_double_examples:
  "to_double (1 / 10) = 3602879701896397 / 2 ^ 55"
  "to_double (1 / 3) = 6004799503160661 / 2 ^ 54"
  "js_mul (js_div 23 40) 100 = 8092405580431359 / 2 ^ 47"
  by code_simp+



section \<open>The claims\<close>

text \<open>
  C1 (amended). For every input text and priority: if the trimmed text is empty,
  \<^verbatim>\<open>addTodo\<close> is a no-op (it completes and leaves the whole state, the task list
  included, unchanged). Otherwise the task list afterwards is the old list with exactly
  one new task in front, whose id is the clock reading, whose text is the input exactly
  as typed (it is not trimmed), whose completed field is false and whose priority is the
  given priority.
\<close>

theorem addTodo_prepends_input:
  "(trim txt = [] \<longrightarrow>
      addTodo now (setPriority p (setInputValue txt w)) = (Ok, setPriority p (setInputValue txt w))) \<and>
   (trim txt \<noteq> [] \<longrightarrow>
      todos (snd (addTodo now (setPriority p (setInputValue txt w)))) =
        \<lparr>todo_id = now, todo_text = txt, todo_completed = False, todo_priority = p\<rparr> # todos w)"
  by (simp add: addTodo_blank addTodo_todos setPriority_def setInputValue_def)

theorem addTodo_prepends_input_witness:
  "addTodo 7 (setPriority (ascii ''High'') (setInputValue (ascii ''   '') (initial_app (new_SoundEngine True True))))
     = (Ok, setPriority (ascii ''High'') (setInputValue (ascii ''   '') (initial_app (new_SoundEngine True True)))) \<and>
   todos (snd (addTodo 7 (setPriority (ascii ''High'') (setInputValue (ascii '' a'') (initial_app (new_SoundEngine True True)))))) =
     [\<lparr>todo_id = 7, todo_text = ascii '' a'', todo_completed = False, todo_priority = ascii ''High''\<rparr>]"
  using addTodo_prepends_input [of "ascii ''   ''" 7 "ascii ''High''" "initial_app (new_SoundEngine True True)"]
    addTodo_prepends_input [of "ascii '' a''" 7 "ascii ''High''" "initial_app (new_SoundEngine True True)"]
    trim_ex1 trim_ex2
  by (simp add: initial_app_def ascii_def)

text \<open>
  C1 as stated fails: for the input \<open>" a"\<close> the stored text is \<open>" a"\<close>, not the trimmed
  \<open>"a"\<close>.
\<close>

theorem addTodo_text_not_trimmed:
  "map todo_text (todos (snd (addTodo 7 (setInputValue (ascii '' a'') (initial_app (new_SoundEngine True True))))))
     = [ascii '' a''] \<and> trim (ascii '' a'') = ascii ''a'' \<and> ascii '' a'' \<noteq> trim (ascii '' a'')"
  by (simp add: addTodo_def seq_def done_with_def soundEngine_def setInputValue_def initial_app_def
      Let_def trim_def is_trim_space_def ascii_def split: prod.splits outcome.splits)

text \<open>
  C2 (amended). Starting from the empty list, the ids of the tasks in the list are
  pairwise distinct after every sequence of add, toggle, delete and reorder actions in
  which every add that creates a task happens at a clock reading that is not already
  the id of a listed task, and every reorder reports a permutation of the current list.
  The id of a new task is the clock reading itself.
\<close>

theorem ids_unique_on_admissible_runs:
  "admissible acts (initial_app a) \<Longrightarrow> distinct (map todo_id (todos (run acts (initial_app a))))"
  by (rule run_keeps_distinct) (simp_all add: initial_app_def)

theorem ids_unique_on_admissible_runs_witness:
  "admissible busy_day (initial_app (new_SoundEngine True True)) \<and>
   distinct (map todo_id (todos (run busy_day (initial_app (new_SoundEngine True True))))) \<and>
   map todo_id (todos (run busy_day (initial_app (new_SoundEngine True True)))) = [1000]"
  using ids_unique_on_admissible_runs [of busy_day "new_SoundEngine True True"] busy_day_run
  by simp

text \<open>
  C2 as stated fails: two adds at the same clock reading give two tasks with the same id.
\<close>

theorem same_tick_adds_collide:
  "map todo_id (todos (run [Add (ascii ''a'') (ascii ''Medium'') 5, Add (ascii ''b'') (ascii ''Medium'') 5]
      (initial_app (new_SoundEngine True True)))) = [5, 5] \<and>
   \<not> distinct (map todo_id (todos (run [Add (ascii ''a'') (ascii ''Medium'') 5, Add (ascii ''b'') (ascii ''Medium'') 5]
      (initial_app (new_SoundEngine True True)))))"
  by (simp add: initial_app_def addTodo_def setPriority_def setInputValue_def soundEngine_alt
      seq_alt done_with_def Let_def trim_def is_trim_space_def ascii_def)

text \<open>
  C3. For every task list, in particular for the list after any sequence of actions,
  the string the persistence effect writes is read back by the load path as the same
  list: the same tasks in the same order, each with the same id, text, completed flag
  and priority. (Two task lists are the same JavaScript value only if they are equal.)
\<close>

theorem persisted_list_round_trips:
  "load_todos (storage (persist w)) = Inr (todos_json (todos w)) \<and>
   load_todos (storage (persist (run acts (initial_app a)))) =
     Inr (todos_json (todos (run acts (initial_app a)))) \<and>
   load_todos (Some (JSON_stringify_todos ts)) = Inr (todos_json ts) \<and>
   (todos_json ts = todos_json ts') = (ts = ts')"
proof -
  have "JSON_stringify_todos us \<noteq> []" for us
    by (simp add: JSON_stringify_todos_def)
  then show ?thesis
    by (simp add: load_todos_def persist_def JSON_round_trip todos_json_inj)
qed




text \<open>
  C5. Clicking a task twice restores the list: for every list and every id, two calls of
  \<^verbatim>\<open>toggleTodo\<close> with that id leave the task list as it was. A single call changes no id,
  text or priority, leaves every task with another id as it is, and flips the completed
  field of exactly the tasks with that id (when the call completes; when the sound
  engine throws, the list is not touched at all).
\<close>

theorem toggleTodo_involution:
  "todos (snd (toggleTodo i (snd (toggleTodo i w)))) = todos w \<and>
   map todo_id (todos (snd (toggleTodo i w))) = map todo_id (todos w) \<and>
   map todo_text (todos (snd (toggleTodo i w))) = map todo_text (todos w) \<and>
   map todo_priority (todos (snd (toggleTodo i w))) = map todo_priority (todos w) \<and>
   filter (\<lambda>t. todo_id t \<noteq> i) (todos (snd (toggleTodo i w))) = filter (\<lambda>t. todo_id t \<noteq> i) (todos w) \<and>
   map todo_completed (todos (snd (toggleTodo i w))) =
     map (\<lambda>t. if todo_id t = i \<and> fst (toggleTodo i w) = Ok then \<not> todo_completed t else todo_completed t)
       (todos w)"
proof -
  have ids: "map todo_id (flip_id i ts) = map todo_id ts" for ts
    by (induction ts) (auto simp: flip_id_def)
  have texts: "map todo_text (flip_id i ts) = map todo_text ts" for ts
    by (induction ts) (auto simp: flip_id_def)
  have pri: "map todo_priority (flip_id i ts) = map todo_priority ts" for ts
    by (induction ts) (auto simp: flip_id_def)
  have oth: "filter (\<lambda>t. todo_id t \<noteq> i) (flip_id i ts) = filter (\<lambda>t. todo_id t \<noteq> i) ts" for ts
    by (induction ts) (auto simp: flip_id_def)
  have cmp: "map todo_completed (flip_id i ts) =
      map (\<lambda>t. if todo_id t = i then \<not> todo_completed t else todo_completed t) ts" for ts
    by (induction ts) (auto simp: flip_id_def)
  have once: "todos (snd (toggleTodo i w)) =
      (if fst (toggleTodo i w) = Ok then flip_id i (todos w) else todos w)"
    by (rule toggleTodo_todos)
  show ?thesis
    by (intro conjI, rule toggleTodo_twice_todos) (simp_all add: once ids texts pri oth cmp)
qed

text \<open>
  C6 (amended). Loading the store reads the persisted string. If the key is absent or the
  string is empty, the list starts empty. Otherwise the initial value is whatever
  \<^verbatim>\<open>JSON.parse\<close> returns for the string, and if the string is not a JSON text (its
  tokens cannot be read, or they do not form a value) the SyntaxError thrown by
  \<^verbatim>\<open>JSON.parse\<close> leaves the initialiser uncaught.
\<close>

theorem load_todos_cases:
  "load_todos None = Inr (JArray []) \<and>
   load_todos (Some []) = Inr (JArray []) \<and>
   (s \<noteq> [] \<longrightarrow> load_todos (Some s) = JSON_parse s) \<and>
   (s \<noteq> [] \<and> lex s = None \<longrightarrow> load_todos (Some s) = Inl SyntaxError) \<and>
   (s \<noteq> [] \<and> lex s = Some ts \<and> parse_tokens (ExpectValue []) ts = None \<longrightarrow>
      load_todos (Some s) = Inl SyntaxError)"
  by (simp add: load_todos_def JSON_parse_def)

theorem load_todos_cases_witness:
  "ascii ''[{\"id\":1,'' \<noteq> [] \<and>
   lex (ascii ''[{\"id\":1,'') = Some [LBracket, LBrace, TString (ascii ''id''), Colon, TNumber 1, Comma] \<and>
   parse_tokens (ExpectValue []) [LBracket, LBrace, TString (ascii ''id''), Colon, TNumber 1, Comma] = None \<and>
   load_todos (Some (ascii ''[{\"id\":1,'')) = Inl SyntaxError \<and>
   load_todos (Some (ascii ''[{\"id\":1,'')) = JSON_parse (ascii ''[{\"id\":1,'')"
proof -
  have nonempty: "ascii ''[{\"id\":1,'' \<noteq> []"
    by (simp add: ascii_def)
  have stuck: "parse_tokens (ExpectValue []) [LBracket, LBrace, TString (ascii ''id''), Colon, TNumber 1, Comma] = None"
    by (simp add: ascii_def set_member_def array_index_def is_digit_def)
  from load_todos_cases [of "ascii ''[{\"id\":1,''"
      "[LBracket, LBrace, TString (ascii ''id''), Colon, TNumber 1, Comma]"]
    nonempty lex_truncated stuck
  show ?thesis by blast
qed

text \<open>
  C6 as stated fails: for the corrupt strings \<open>"{"\<close> and \<open>"not json"\<close> the load throws a
  SyntaxError instead of yielding the empty list.
\<close>

theorem load_todos_corrupt_throws:
  "load_todos (Some (ascii ''{'')) = Inl SyntaxError \<and>
   load_todos (Some (ascii ''not json'')) = Inl SyntaxError \<and>
   load_todos (Some (ascii ''{'')) \<noteq> Inr (JArray [])"
  by (simp add: load_todos_def JSON_parse_def ascii_def is_json_ws_def is_digit_def
      drop_prefix_def lex.simps)

text \<open>
  C7 (amended). After \<^verbatim>\<open>setEnabled(false)\<close>, on an engine with no callback pending,
  each of \<^verbatim>\<open>playClick\<close>, \<^verbatim>\<open>playAdd\<close>, \<^verbatim>\<open>playToggle\<close>, \<^verbatim>\<open>playDelete\<close> and
  \<^verbatim>\<open>playCredits\<close> constructs no oscillator and no gain node and starts no sound, neither
  at once nor when its timer callback fires: the only backend call it can make is the
  construction of the audio context, which \<^verbatim>\<open>init\<close> performs whenever no context exists
  yet, whether or not the engine is enabled.
\<close>

theorem disabled_tone_triggers_silent:
  "timers a = [] \<Longrightarrow> m \<in> set tone_triggers \<Longrightarrow>
   backend (run_timers (snd (m (setEnabled False a)))) =
     backend a @ (if \<not> audioCtx a \<and> ctor_ok a then [NewAudioContext] else [])"
  by (auto simp: tone_triggers_def playClick_def playAdd_def playToggle_def playDelete_def
      playCredits_def sound_defs setEnabled_def run_timers_def)

theorem disabled_tone_triggers_silent_witness:
  "timers running_engine = [] \<and> timers (new_SoundEngine True True) = [] \<and>
   playAdd \<in> set tone_triggers \<and>
   backend (run_timers (snd (playAdd (setEnabled False running_engine)))) = [] \<and>
   backend (run_timers (snd (playAdd (setEnabled False (new_SoundEngine True True))))) =
     [NewAudioContext]"
proof -
  have idle: "timers running_engine = []" "timers (new_SoundEngine True True) = []"
    by (simp_all add: running_engine_def new_SoundEngine_def)
  have mem: "playAdd \<in> set tone_triggers"
    by (simp add: tone_triggers_def)
  from disabled_tone_triggers_silent [OF idle(1) mem] disabled_tone_triggers_silent [OF idle(2) mem]
  show ?thesis
    using idle mem by (simp add: running_engine_def new_SoundEngine_def)
qed

text \<open>
  C7 as stated fails: a disabled engine without a context constructs one on
  \<^verbatim>\<open>playClick\<close>; \<^verbatim>\<open>playAdd\<close> on a disabled engine still registers its timer callback;
  and \<^verbatim>\<open>playVictory\<close> on a disabled engine still builds and starts its five oscillators
  once its callbacks fire.
\<close>

theorem disabled_engine_still_calls_backend:
  "backend (snd (playClick (setEnabled False (new_SoundEngine True True)))) = [NewAudioContext] \<and>
   timers (snd (playAdd (setEnabled False running_engine))) = [(50, Tone 600 Sine 0.15 0.05)] \<and>
   backend (run_timers (snd (playVictory (setEnabled False running_engine)))) =
     concat (map voice_calls harmonics) \<and>
   length (filter (\<lambda>c. c = CreateOscillator)
     (backend (run_timers (snd (playVictory (setEnabled False running_engine)))))) = 5"
  by (simp add: playClick_def playAdd_def playVictory_def sound_defs setEnabled_def
      running_engine_def new_SoundEngine_def run_timers_def harmonics_def voice_calls_def)

text \<open>
  C8 (amended). \<^verbatim>\<open>reorder\<close> replaces the task list by its argument and changes nothing
  else of the state. When the argument is a permutation of the current list (what the
  drag engine reports), the tasks are the same tasks with the same field values, so the
  set of ids and the number of tasks are unchanged and only positions differ.
\<close>

theorem reorder_permutation:
  "reorder newOrder w = (Ok, w\<lparr>todos := newOrder\<rparr>) \<and>
   (mset newOrder = mset (todos w) \<longrightarrow>
      mset (todos (snd (reorder newOrder w))) = mset (todos w) \<and>
      set (map todo_id (todos (snd (reorder newOrder w)))) = set (map todo_id (todos w)) \<and>
      length (todos (snd (reorder newOrder w))) = length (todos w))"
proof -
  have "set (map todo_id newOrder) = set (map todo_id (todos w))"
    if "mset newOrder = mset (todos w)"
    using that by (metis mset_map set_mset_mset)
  moreover have "length newOrder = length (todos w)" if "mset newOrder = mset (todos w)"
    using that by (metis size_mset)
  ultimately show ?thesis
    by (simp add: reorder_def done_with_def)
qed

theorem reorder_permutation_witness:
  "mset [task_b, task_a] = mset (todos app_ab) \<and>
   todos (snd (reorder [task_b, task_a] app_ab)) = [task_b, task_a] \<and>
   set (map todo_id (todos (snd (reorder [task_b, task_a] app_ab)))) = {1, 2}"
  using reorder_permutation [of "[task_b, task_a]" app_ab]
  by (auto simp: app_ab_def initial_app_def task_a_def task_b_def)

text \<open>
  C8 as stated (for every argument) fails: the store does not validate the argument, so
  an empty argument removes every id and an argument with an edited task changes a text.
\<close>

theorem reorder_not_validated:
  "set (map todo_id (todos (snd (reorder [] app_ab)))) \<noteq> set (map todo_id (todos app_ab)) \<and>
   map todo_text (todos (snd (reorder [task_a\<lparr>todo_text := ascii ''z''\<rparr>, task_b] app_ab)))
     \<noteq> map todo_text (todos app_ab)"
  by (simp add: reorder_def done_with_def app_ab_def initial_app_def task_a_def task_b_def ascii_def)

text \<open>
  C9 (amended). Nothing in the engine or the component catches an exception. A tone
  trigger throws when no audio context exists and none can be constructed, and when the
  engine is enabled and the context hands out no node; otherwise it returns normally.
  \<^verbatim>\<open>playVictory\<close> throws exactly when no context exists and none can be constructed. The
  exception passes through the task handlers: \<^verbatim>\<open>deleteTodo\<close> and \<^verbatim>\<open>toggleTodo\<close> call the
  engine before they update the list, so when the engine throws the list stays as it
  was; \<^verbatim>\<open>addTodo\<close> calls it after the update, so the task is added and the handler throws
  what \<^verbatim>\<open>playAdd\<close> throws.
\<close>

theorem audio_failure_propagates:
  "(m \<in> set tone_triggers \<longrightarrow>
      fst (m a) = (if \<not> audioCtx a \<and> \<not> ctor_ok a then Threw TypeError
                   else if enabled a \<and> \<not> node_ok a then Threw DOMException else Ok)) \<and>
   fst (playVictory a) = (if \<not> audioCtx a \<and> \<not> ctor_ok a then Threw TypeError else Ok) \<and>
   fst (deleteTodo i w) = fst (playDelete (sound w)) \<and>
   (fst (deleteTodo i w) \<noteq> Ok \<longrightarrow> todos (snd (deleteTodo i w)) = todos w) \<and>
   (fst (toggleTodo i w) \<noteq> Ok \<longrightarrow> todos (snd (toggleTodo i w)) = todos w) \<and>
   (trim (inputValue w) \<noteq> [] \<longrightarrow>
      fst (addTodo now w) = fst (playAdd (sound w)) \<and>
      length (todos (snd (addTodo now w))) = Suc (length (todos w)))"
  by (simp add: tone_trigger_outcome playVictory_outcome deleteTodo_sound deleteTodo_todos
      toggleTodo_todos addTodo_outcome addTodo_todos)

theorem audio_failure_propagates_witness:
  "playDelete \<in> set tone_triggers \<and>
   fst (playDelete (new_SoundEngine False True)) = Threw TypeError \<and>
   fst (deleteTodo 1 app_mute) \<noteq> Ok \<and> todos (snd (deleteTodo 1 app_mute)) = [task_a, task_b] \<and>
   fst (toggleTodo 1 app_mute) \<noteq> Ok \<and> todos (snd (toggleTodo 1 app_mute)) = [task_a, task_b] \<and>
   trim (inputValue (setInputValue (ascii ''a'') app_mute)) \<noteq> [] \<and>
   fst (addTodo 3 (setInputValue (ascii ''a'') app_mute)) = Threw TypeError \<and>
   length (todos (snd (addTodo 3 (setInputValue (ascii ''a'') app_mute)))) = 3"
proof -
  let ?a = "new_SoundEngine False True"
  let ?w = "setInputValue (ascii ''a'') app_mute"
  have mem: "playDelete \<in> set tone_triggers"
    by (simp add: tone_triggers_def)
  have broken: "\<not> audioCtx ?a \<and> \<not> ctor_ok ?a"
    by (simp add: new_SoundEngine_def)
  have snd_mute: "sound app_mute = ?a" "todos app_mute = [task_a, task_b]"
    "sound ?w = ?a" "todos ?w = [task_a, task_b]"
    by (simp_all add: app_mute_def initial_app_def setInputValue_def)
  have del: "fst (playDelete ?a) = Threw TypeError"
    using audio_failure_propagates [of playDelete ?a 1 app_mute 3] mem broken by simp
  have d: "fst (deleteTodo 1 app_mute) \<noteq> Ok"
    using audio_failure_propagates [of playDelete ?a 1 app_mute 3] del snd_mute by simp
  have t: "fst (toggleTodo 1 app_mute) \<noteq> Ok"
    by (simp add: toggleTodo_fst snd_mute audio_ok_def new_SoundEngine_def task_a_def)
  have typed: "trim (inputValue ?w) \<noteq> []"
    by (simp add: setInputValue_def trim_def is_trim_space_def ascii_def)
  have padd: "fst (playAdd ?a) = Threw TypeError"
    by (simp add: playAdd_def sound_defs new_SoundEngine_def)
  from audio_failure_propagates [of playDelete ?a 1 app_mute 3] d t
  have "todos (snd (deleteTodo 1 app_mute)) = todos app_mute"
    and "todos (snd (toggleTodo 1 app_mute)) = todos app_mute"
    by blast+
  moreover from audio_failure_propagates [of playDelete ?a 1 ?w 3] typed
  have "fst (addTodo 3 ?w) = fst (playAdd (sound ?w))"
    and "length (todos (snd (addTodo 3 ?w))) = Suc (length (todos ?w))"
    by blast+
  ultimately show ?thesis
    using mem del d t typed padd snd_mute by simp
qed

text \<open>
  C9 as stated fails: where no audio context can be constructed \<^verbatim>\<open>playDelete\<close> throws a
  TypeError, \<^verbatim>\<open>deleteTodo\<close> throws it too, and the task is not deleted.
\<close>

theorem audio_failure_blocks_delete:
  "playDelete (new_SoundEngine False True) = (Threw TypeError, new_SoundEngine False True) \<and>
   deleteTodo 1 app_mute = (Threw TypeError, app_mute) \<and>
   task_a \<in> set (todos (snd (deleteTodo 1 app_mute))) \<and> todo_id task_a = 1"
  by (simp add: deleteTodo_def seq_alt done_with_def soundEngine_alt playDelete_def init_def
      app_mute_def initial_app_def new_SoundEngine_def task_a_def)

text \<open>
  C10. \<^verbatim>\<open>deleteTodo\<close> calls \<^verbatim>\<open>playDelete\<close> exactly once, whatever the id: its outcome and
  its effect on the sound engine are those of one such call. On an enabled engine that
  has a context or can construct one and that gets its nodes, the call completes and
  the backend log grows by the construction of the context (if there was none) and by
  exactly one tone: one oscillator and one gain node are created, the oscillator is a
  300 Hz sawtooth, it is started once and stopped after 0.1 s. When no task has the id,
  the list stays as it is and the delete sound is played all the same, whereas
  \<^verbatim>\<open>toggleTodo\<close> for an id no task has does nothing at all: it leaves the whole state
  unchanged and makes no backend call.
\<close>

theorem deleteTodo_sounds_once:
  "fst (deleteTodo i w) = fst (playDelete (sound w)) \<and>
   sound (snd (deleteTodo i w)) = snd (playDelete (sound w)) \<and>
   ((audioCtx (sound w) \<or> ctor_ok (sound w)) \<and> enabled (sound w) \<and> node_ok (sound w) \<longrightarrow>
      fst (deleteTodo i w) = Ok \<and>
      todos (snd (deleteTodo i w)) = filter (\<lambda>t. todo_id t \<noteq> i) (todos w) \<and>
      backend (sound (snd (deleteTodo i w))) =
        backend (sound w) @ (if audioCtx (sound w) then [] else [NewAudioContext]) @
          [CreateOscillator, CreateGain, SetType Sawtooth, FrequencySetValueAtTime 300,
           GainSetValueAtTime 0.02, GainExponentialRamp 0.0001 0.1,
           ConnectOscToGain, ConnectGainToDestination, OscStart, OscStop 0.1]) \<and>
   (i \<notin> set (map todo_id (todos w)) \<longrightarrow>
      todos (snd (deleteTodo i w)) = todos w \<and>
      toggleTodo i w = (Ok, w) \<and>
      backend (sound (snd (toggleTodo i w))) = backend (sound w))"
proof -
  have audible: "fst (deleteTodo i w) = Ok \<and>
      todos (snd (deleteTodo i w)) = filter (\<lambda>t. todo_id t \<noteq> i) (todos w) \<and>
      backend (sound (snd (deleteTodo i w))) =
        backend (sound w) @ (if audioCtx (sound w) then [] else [NewAudioContext]) @
          [CreateOscillator, CreateGain, SetType Sawtooth, FrequencySetValueAtTime 300,
           GainSetValueAtTime 0.02, GainExponentialRamp 0.0001 0.1,
           ConnectOscToGain, ConnectGainToDestination, OscStart, OscStop 0.1]"
    if "(audioCtx (sound w) \<or> ctor_ok (sound w)) \<and> enabled (sound w) \<and> node_ok (sound w)"
    using that playDelete_audible [of "sound w"]
    by (simp add: deleteTodo_sound deleteTodo_todos)
  have absent: "todos (snd (deleteTodo i w)) = todos w \<and> toggleTodo i w = (Ok, w) \<and>
      backend (sound (snd (toggleTodo i w))) = backend (sound w)"
    if "i \<notin> set (map todo_id (todos w))"
    using that by (simp add: deleteTodo_todos absent_filter toggleTodo_absent)
  from audible absent show ?thesis
    by (simp only: deleteTodo_sound) blast
qed

theorem deleteTodo_sounds_once_witness:
  "(audioCtx (sound app_live) \<or> ctor_ok (sound app_live)) \<and> enabled (sound app_live) \<and>
     node_ok (sound app_live) \<and>
   (audioCtx (sound app_ab) \<or> ctor_ok (sound app_ab)) \<and> enabled (sound app_ab) \<and>
     node_ok (sound app_ab) \<and>
   9 \<notin> set (map todo_id (todos app_live)) \<and>
   todos (snd (deleteTodo 9 app_live)) = [task_a, task_b] \<and>
   backend (sound (snd (deleteTodo 9 app_live))) =
     [CreateOscillator, CreateGain, SetType Sawtooth, FrequencySetValueAtTime 300,
      GainSetValueAtTime 0.02, GainExponentialRamp 0.0001 0.1,
      ConnectOscToGain, ConnectGainToDestination, OscStart, OscStop 0.1] \<and>
   backend (sound (snd (deleteTodo 1 app_ab))) =
     NewAudioContext #
     [CreateOscillator, CreateGain, SetType Sawtooth, FrequencySetValueAtTime 300,
      GainSetValueAtTime 0.02, GainExponentialRamp 0.0001 0.1,
      ConnectOscToGain, ConnectGainToDestination, OscStart, OscStop 0.1] \<and>
   todos (snd (deleteTodo 1 app_ab)) = [task_b] \<and>
   toggleTodo 9 app_live = (Ok, app_live) \<and>
   backend (sound (snd (toggleTodo 9 app_live))) = [] \<and>
   deleteTodo 9 app_live \<noteq> toggleTodo 9 app_live"
proof -
  have live: "(audioCtx (sound app_live) \<or> ctor_ok (sound app_live)) \<and> enabled (sound app_live) \<and>
      node_ok (sound app_live)"
    and fresh: "(audioCtx (sound app_ab) \<or> ctor_ok (sound app_ab)) \<and> enabled (sound app_ab) \<and>
      node_ok (sound app_ab)"
    by (simp_all add: app_live_def app_ab_def initial_app_def running_engine_def new_SoundEngine_def)
  have absent: "9 \<notin> set (map todo_id (todos app_live))"
    by (simp add: app_live_def initial_app_def task_a_def task_b_def)
  have state: "backend (sound app_live) = []" "todos app_live = [task_a, task_b]"
    "audioCtx (sound app_live)" "backend (sound app_ab) = []" "\<not> audioCtx (sound app_ab)"
    "filter (\<lambda>t. todo_id t \<noteq> 1) (todos app_ab) = [task_b]"
    by (simp_all add: app_live_def app_ab_def initial_app_def running_engine_def new_SoundEngine_def
        task_a_def task_b_def)
  from deleteTodo_sounds_once [of 9 app_live] live absent
  have "backend (sound (snd (deleteTodo 9 app_live))) =
     backend (sound app_live) @ (if audioCtx (sound app_live) then [] else [NewAudioContext]) @
     [CreateOscillator, CreateGain, SetType Sawtooth, FrequencySetValueAtTime 300,
      GainSetValueAtTime 0.02, GainExponentialRamp 0.0001 0.1,
      ConnectOscToGain, ConnectGainToDestination, OscStart, OscStop 0.1]"
    and "todos (snd (deleteTodo 9 app_live)) = todos app_live"
    and g9: "toggleTodo 9 app_live = (Ok, app_live)"
    by blast+
  with state have d9: "backend (sound (snd (deleteTodo 9 app_live))) =
     [CreateOscillator, CreateGain, SetType Sawtooth, FrequencySetValueAtTime 300,
      GainSetValueAtTime 0.02, GainExponentialRamp 0.0001 0.1,
      ConnectOscToGain, ConnectGainToDestination, OscStart, OscStop 0.1]"
    and t9: "todos (snd (deleteTodo 9 app_live)) = [task_a, task_b]"
    by simp_all
  from deleteTodo_sounds_once [of 1 app_ab] fresh
  have "backend (sound (snd (deleteTodo 1 app_ab))) =
     backend (sound app_ab) @ (if audioCtx (sound app_ab) then [] else [NewAudioContext]) @
     [CreateOscillator, CreateGain, SetType Sawtooth, FrequencySetValueAtTime 300,
      GainSetValueAtTime 0.02, GainExponentialRamp 0.0001 0.1,
      ConnectOscToGain, ConnectGainToDestination, OscStart, OscStop 0.1]"
    and "todos (snd (deleteTodo 1 app_ab)) = filter (\<lambda>t. todo_id t \<noteq> 1) (todos app_ab)"
    by blast+
  with state have d1: "backend (sound (snd (deleteTodo 1 app_ab))) =
     NewAudioContext # [CreateOscillator, CreateGain, SetType Sawtooth, FrequencySetValueAtTime 300,
      GainSetValueAtTime 0.02, GainExponentialRamp 0.0001 0.1,
      ConnectOscToGain, ConnectGainToDestination, OscStart, OscStop 0.1]"
    and t1: "todos (snd (deleteTodo 1 app_ab)) = [task_b]"
    by simp_all
  have quiet: "backend (sound (snd (toggleTodo 9 app_live))) = []"
    using g9 state(1) by simp
  have differ: "deleteTodo 9 app_live \<noteq> toggleTodo 9 app_live"
    using d9 quiet by auto
  from live fresh absent t9 d9 d1 t1 g9 quiet differ show ?thesis
    by blast
qed

end
